theory Spec2Isabelle
  imports Main "HOL-Library.AList"
begin

section \<open>Library functions of the Go runtime used by the plugin\<close>

text \<open>
  A Go string is a sequence of bytes; it is modelled as \<^typ>\<open>string\<close>.
  The plugin calls \<open>strings.Split\<close> only with the one-byte separators
  \<open>","\<close>, \<open>":"\<close> and a newline, so the separator is a \<^typ>\<open>char\<close>.
  Splitting the empty string gives one empty piece, as in Go.
\<close>

primrec Split :: "string \<Rightarrow> char \<Rightarrow> string list" where
  "Split [] sep = [[]]"
| "Split (x # xs) sep =
     (if x = sep then [] # Split xs sep
      else (case Split xs sep of [] \<Rightarrow> [[x]] | y # ys \<Rightarrow> (x # y) # ys))"

definition Contains :: "string \<Rightarrow> char \<Rightarrow> bool" where
  "Contains s c = (c \<in> set s)"

text \<open>
  \<open>strings.TrimSpace\<close> removes leading and trailing Unicode white space. On the
  bytes of a string these are the six ASCII characters and the UTF-8 encodings of
  U+0085, U+00A0, U+1680, U+2000 to U+200A, U+2028, U+2029, U+202F, U+205F and U+3000.
\<close>

definition spaceEncodings :: "string list" where
  "spaceEncodings =
     [[CHR 0x09], [CHR 0x0A], [CHR 0x0B], [CHR 0x0C], [CHR 0x0D], [CHR 0x20],
      [CHR 0xC2, CHR 0x85], [CHR 0xC2, CHR 0xA0],
      [CHR 0xE1, CHR 0x9A, CHR 0x80],
      [CHR 0xE2, CHR 0x80, CHR 0x80], [CHR 0xE2, CHR 0x80, CHR 0x81],
      [CHR 0xE2, CHR 0x80, CHR 0x82], [CHR 0xE2, CHR 0x80, CHR 0x83],
      [CHR 0xE2, CHR 0x80, CHR 0x84], [CHR 0xE2, CHR 0x80, CHR 0x85],
      [CHR 0xE2, CHR 0x80, CHR 0x86], [CHR 0xE2, CHR 0x80, CHR 0x87],
      [CHR 0xE2, CHR 0x80, CHR 0x88], [CHR 0xE2, CHR 0x80, CHR 0x89],
      [CHR 0xE2, CHR 0x80, CHR 0x8A],
      [CHR 0xE2, CHR 0x80, CHR 0xA8], [CHR 0xE2, CHR 0x80, CHR 0xA9],
      [CHR 0xE2, CHR 0x80, CHR 0xAF],
      [CHR 0xE2, CHR 0x81, CHR 0x9F],
      [CHR 0xE3, CHR 0x80, CHR 0x80]]"

text \<open>
  The length of the first of the given encodings that a string starts with (0: none),
  and the loop of \<open>TrimLeftFunc\<close>, which drops such encodings from the front. The
  loop runs at most once per byte, so the length of the string is enough fuel.
\<close>

definition leadingSpace :: "string list \<Rightarrow> string \<Rightarrow> nat" where
  "leadingSpace encs s =
     (case filter (\<lambda>e. take (length e) s = e) encs of [] \<Rightarrow> 0 | e # _ \<Rightarrow> length e)"

primrec trimFuel :: "string list \<Rightarrow> nat \<Rightarrow> string \<Rightarrow> string" where
  "trimFuel encs 0 s = s"
| "trimFuel encs (Suc n) s =
     (if leadingSpace encs s = 0 then s else trimFuel encs n (drop (leadingSpace encs s) s))"

definition TrimLeft :: "string \<Rightarrow> string" where
  "TrimLeft s = trimFuel spaceEncodings (length s) s"

text \<open>
  \<open>TrimRightFunc\<close> is the same loop from the other end: on the reversed string, with
  every encoding read backwards.
\<close>

definition TrimRight :: "string \<Rightarrow> string" where
  "TrimRight s = rev (trimFuel (map rev spaceEncodings) (length s) (rev s))"

definition TrimSpace :: "string \<Rightarrow> string" where
  "TrimSpace s = TrimRight (TrimLeft s)"

text \<open>
  \<open>strconv.Atoi\<close> on a 64-bit platform: an optional sign, then decimal digits.
  \<open>ParseUint\<close> stops at the first byte that is not a digit (syntax error) or at
  the first digit that takes the value beyond 64 bits (range error); \<open>ParseInt\<close>
  then checks the signed range.
\<close>

datatype num_error = ErrSyntax | ErrRange

definition isDigit :: "char \<Rightarrow> bool" where
  "isDigit c = (c \<in> set ''0123456789'')"

definition digitVal :: "char \<Rightarrow> int" where
  "digitVal c = int (of_char c) - 48"

primrec parseUintLoop :: "string \<Rightarrow> int \<Rightarrow> num_error + int" where
  "parseUintLoop [] n = Inr n"
| "parseUintLoop (c # cs) n =
     (if \<not> isDigit c then Inl ErrSyntax
      else if n \<ge> (2 ^ 64 - 1) div 10 + 1 then Inl ErrRange
      else if n * 10 + digitVal c > 2 ^ 64 - 1 then Inl ErrRange
      else parseUintLoop cs (n * 10 + digitVal c))"

definition Atoi :: "string \<Rightarrow> num_error + int" where
  "Atoi s =
     (if s = [] then Inl ErrSyntax
      else let neg = (hd s = CHR ''-'');
               ds = (if hd s = CHR ''-'' \<or> hd s = CHR ''+'' then tl s else s)
           in if ds = [] then Inl ErrSyntax
              else (case parseUintLoop ds 0 of
                      Inl e \<Rightarrow> Inl e
                    | Inr un \<Rightarrow>
                        if \<not> neg \<and> un \<ge> 2 ^ 63 then Inl ErrRange
                        else if neg \<and> un > 2 ^ 63 then Inl ErrRange
                        else Inr (if neg then - un else un)))"

section \<open>Data of the plugin (plugin.go)\<close>

text \<open>
  Go's \<open>error\<close> values. The plugin's own errors are one constructor per message;
  \<open>LibError\<close> is an error handed back by a library or by the operating system.
\<close>

datatype error =
    ErrIdentityMissing
  | ErrIdentityBoth
  | ErrRepoArgsExclusive
  | ErrInstallationRequired
  | ErrNoPemSource
  | ErrUnableToParsePem
  | ErrReadRepoIDsFile error
  | ErrTooManyRepositories
  | ErrRepoNameWithOwner string
  | ErrInvalidRepoID string num_error
  | ErrPermissionFormat string
  | ErrPermissionEmpty string
  | LibError string

text \<open>
  The arguments. The embedded \<open>Pipeline\<close> struct is not read by \<open>Exec\<close> and is
  left out.
\<close>

record Args =
  Level :: string
  AppId :: string
  ClientId :: string
  Pem :: string
  PemFile :: string
  PemB64 :: string
  Installation :: string
  JwtFile :: string
  TokenFile :: string
  JsonFile :: string
  JwtSecret :: string
  TokenSecret :: string
  JsonSecret :: string
  SecretManager :: string
  RepoIDs :: string
  RepoNames :: string
  RepoIDsFile :: string
  Permissions :: string

record AppResponse =
  ID :: int
  Slug :: string

record TokenResponseRepository =
  ID_repo :: int
  Name :: string

text \<open>A Go \<open>map[string]string\<close> is an association list with distinct keys.\<close>

record TokenResponse =
  Token :: string
  ExpiresAt :: string
  Permissions_token :: "(string \<times> string) list"
  RepositorySelection :: string
  Repositories :: "TokenResponseRepository list"

record JsonOutput =
  Token_json :: TokenResponse
  Jwt :: string
  RepositoryCount :: nat
  Permissions_json :: "(string \<times> string) list"

text \<open>The zero values of the structs (\<open>var tokenData TokenResponse\<close>, \<open>JsonOutput{}\<close>).\<close>

definition zeroAppResponse :: AppResponse where
  "zeroAppResponse = \<lparr>ID = 0, Slug = []\<rparr>"

definition zeroTokenResponse :: TokenResponse where
  "zeroTokenResponse =
     \<lparr>Token = [], ExpiresAt = [], Permissions_token = [], RepositorySelection = [],
      Repositories = []\<rparr>"

definition zeroJsonOutput :: JsonOutput where
  "zeroJsonOutput =
     \<lparr>Token_json = zeroTokenResponse, Jwt = [], RepositoryCount = 0, Permissions_json = []\<rparr>"

section \<open>Validation and parsing of the options (plugin.go)\<close>

definition repoArgsCount :: "Args \<Rightarrow> nat" where
  "repoArgsCount args =
     (if RepoIDs args \<noteq> [] then 1 else 0) + (if RepoNames args \<noteq> [] then 1 else 0)
       + (if RepoIDsFile args \<noteq> [] then 1 else 0)"

definition validateRepositoryArgs :: "Args \<Rightarrow> error option" where
  "validateRepositoryArgs args =
     (if repoArgsCount args > 1 then Some ErrRepoArgsExclusive
      else if repoArgsCount args > 0 \<and> Installation args = [] then Some ErrInstallationRequired
      else None)"

text \<open>
  \<open>parsePermissions\<close>: the loop over the items, with the map built so far. A blank
  item is skipped by \<open>continue\<close>.
\<close>

primrec permissionsLoop :: "string list \<Rightarrow> (string \<times> string) list \<Rightarrow> error + (string \<times> string) list" where
  "permissionsLoop [] permissions = Inr permissions"
| "permissionsLoop (item0 # rest) permissions =
     (let item = TrimSpace item0 in
      if item = [] then permissionsLoop rest permissions
      else let parts = Split item CHR '':'' in
        if length parts \<noteq> 2 then Inl (ErrPermissionFormat item)
        else let resource = TrimSpace (parts ! 0); permission = TrimSpace (parts ! 1) in
          if resource = [] \<or> permission = [] then Inl (ErrPermissionEmpty item)
          else permissionsLoop rest (AList.update resource permission permissions))"

text \<open>The result is \<open>None\<close> for Go's nil map.\<close>

definition parsePermissions :: "string \<Rightarrow> error + (string \<times> string) list option" where
  "parsePermissions permissionsStr =
     (if permissionsStr = [] then Inr None
      else (case permissionsLoop (Split (TrimSpace permissionsStr) CHR '','') [] of
              Inl e \<Rightarrow> Inl e
            | Inr permissions \<Rightarrow> Inr (Some permissions)))"

section \<open>The world outside the plugin\<close>

text \<open>
  The identity claims handed to \<open>jwt.NewWithClaims\<close>: the map with the keys
  \<open>iat\<close>, \<open>exp\<close> and \<open>iss\<close>.
\<close>

record claims =
  iat :: int
  exp_claim :: int
  iss :: string

text \<open>
  The body and the values of a token-exchange request. \<open>reqData\<close> is a
  \<open>map[string]interface{}\<close> whose values are a slice of integers, a slice of strings
  or a string map; \<open>encoding/json\<close> cannot fail on these, so the error return after
  \<open>json.Marshal\<close> is unreachable and a body is the map it serialises. A nil reader
  and an empty buffer are both the empty body.
\<close>

datatype reqvalue = IntSlice "int list" | StringSlice "string list" | StringMap "(string \<times> string) list"

datatype reqbody = EmptyBody | JsonBody "(string \<times> reqvalue) list"

record request =
  Method :: string
  URL :: string
  Header :: "(string \<times> string) list"
  Body :: reqbody

text \<open>
  An HTTP response: its status code and what \<open>io.ReadAll\<close> returns for its body
  (the bytes read, and an error or nil).
\<close>

record response =
  StatusCode :: int
  readAll :: "string \<times> error option"

text \<open>
  What is written to a file or a secret: a string, or the JSON document of a
  \<open>JsonOutput\<close> (\<open>json.MarshalIndent\<close> cannot fail on this struct either).
\<close>

datatype payload = Text string | JsonDoc JsonOutput

type_synonym rsa_key = nat

text \<open>
  Everything \<open>Exec\<close> asks of its environment. A Go function returning a value and an
  error is a function into a pair, since the value is used even when the error is
  not nil. \<open>now k\<close> is the Unix time of the \<open>k\<close>-th call of \<open>time.Now()\<close>, counted
  from 0. \<open>doRequest\<close> is \<open>http.Client.Do\<close>: the response is nil (\<open>None\<close>) on a
  transport error.
\<close>

record world =
  now :: "nat \<Rightarrow> int"
  readFile :: "string \<Rightarrow> string \<times> error option"
  decodeBase64 :: "string \<Rightarrow> string \<times> error option"
  parseRSAPrivateKeyFromPEM :: "string \<Rightarrow> error + rsa_key"
  signedString :: "rsa_key \<Rightarrow> claims \<Rightarrow> error + string"
  newRequest :: "string \<Rightarrow> string \<Rightarrow> error option"
  doRequest :: "request \<Rightarrow> response option \<times> error option"
  unmarshalApp :: "string \<Rightarrow> AppResponse \<times> error option"
  unmarshalToken :: "string \<Rightarrow> TokenResponse \<times> error option"
  writeFile :: "string \<Rightarrow> payload \<Rightarrow> error option"
  setSecretText :: "string \<Rightarrow> payload \<Rightarrow> string \<Rightarrow> error option"

text \<open>The effects of a run, in the order in which they happen.\<close>

datatype event =
    ReadFile string
  | Print error
  | HttpDo request
  | LogAuthenticated string
  | LogRepository string int
  | LogTokenReceived string nat "(string \<times> string) list"
  | LogSkipTokenFile
  | WriteFile string payload
  | SetSecretText string payload string
  | LogJwtSaved string
  | LogTokenSaved string
  | LogJsonSaved string

text \<open>A call returns, or panics (a nil pointer is dereferenced).\<close>

datatype 'a go = Returns 'a | Panics

section \<open>The two HTTP calls (util.go)\<close>

definition validateJWT :: "world \<Rightarrow> string \<Rightarrow> (AppResponse \<times> error option) go \<times> event list" where
  "validateJWT w jwt =
     (case newRequest w ''GET'' ''https://api.github.com/app'' of
        Some e \<Rightarrow> (Returns (zeroAppResponse, Some e), [])
      | None \<Rightarrow>
          (let req = \<lparr>Method = ''GET'', URL = ''https://api.github.com/app'',
                      Header = [(''Accept'', ''application/vnd.github+json''),
                                 (''Authorization'', ''Bearer '' @ jwt)],
                      Body = EmptyBody\<rparr>
           in case fst (doRequest w req) of
                None \<Rightarrow> (Panics, [HttpDo req])
              | Some resp \<Rightarrow>
                  (case snd (readAll resp) of
                     Some e \<Rightarrow> (Returns (zeroAppResponse, Some e), [HttpDo req])
                   | None \<Rightarrow> (Returns (unmarshalApp w (fst (readAll resp))), [HttpDo req]))))"

definition buildReqData :: "(string \<times> reqvalue) list option \<Rightarrow> (string \<times> string) list option \<Rightarrow> (string \<times> reqvalue) list" where
  "buildReqData repoData permissions =
     (let reqData = (case repoData of
                       None \<Rightarrow> []
                     | Some rd \<Rightarrow> fold (\<lambda>kv m. AList.update (fst kv) (snd kv) m) rd [])
      in case permissions of
           None \<Rightarrow> reqData
         | Some ps \<Rightarrow>
             if length ps > 0 then AList.update ''permissions'' (StringMap ps) reqData
             else reqData)"

definition installationToken :: "world \<Rightarrow> string \<Rightarrow> string \<Rightarrow> (string \<times> reqvalue) list option \<Rightarrow> (string \<times> string) list option \<Rightarrow> (TokenResponse \<times> error option) go \<times> event list" where
  "installationToken w jwt installation repoData permissions =
     (let reqData = buildReqData repoData permissions;
          reqBody = (if length reqData > 0 then JsonBody reqData else EmptyBody);
          target = ''https://api.github.com/app/installations/'' @ installation @ ''/access_tokens''
      in case newRequest w ''POST'' target of
           Some e \<Rightarrow> (Returns (zeroTokenResponse, Some e), [])
         | None \<Rightarrow>
             (let req = \<lparr>Method = ''POST'', URL = target,
                         Header = [(''Accept'', ''application/vnd.github+json''),
                                    (''Authorization'', ''Bearer '' @ jwt)]
                                   @ (if length reqData > 0
                                      then [(''Content-Type'', ''application/json'')] else []),
                         Body = reqBody\<rparr>
              in case fst (doRequest w req) of
                   None \<Rightarrow> (Panics, [HttpDo req])
                 | Some resp \<Rightarrow>
                     (case snd (readAll resp) of
                        Some e \<Rightarrow> (Returns (zeroTokenResponse, Some e), [HttpDo req])
                      | None \<Rightarrow> (Returns (unmarshalToken w (fst (readAll resp))), [HttpDo req]))))"

section \<open>Repository selection (plugin.go)\<close>

text \<open>The items of one line of the repository-ID file, and of the whole file.\<close>

definition lineItems :: "string \<Rightarrow> string list" where
  "lineItems line0 =
     (let line = TrimSpace line0 in
      if line \<noteq> [] then
        (if Contains line CHR '',''
         then filter (\<lambda>item. item \<noteq> []) (map TrimSpace (Split line CHR '',''))
         else [line])
      else [])"

definition fileItems :: "string \<Rightarrow> string list" where
  "fileItems content = concat (map lineItems (Split content (CHR 0x0A)))"

text \<open>The two conversion loops, with the slice built so far.\<close>

primrec repoNamesLoop :: "string list \<Rightarrow> string list \<Rightarrow> error + string list" where
  "repoNamesLoop [] repoNames = Inr repoNames"
| "repoNamesLoop (name0 # rest) repoNames =
     (let name = TrimSpace name0 in
      if name \<noteq> [] then
        (if Contains name CHR ''/'' then Inl (ErrRepoNameWithOwner name)
         else repoNamesLoop rest (repoNames @ [name]))
      else repoNamesLoop rest repoNames)"

primrec repoIDsLoop :: "string list \<Rightarrow> int list \<Rightarrow> error + int list" where
  "repoIDsLoop [] repoIDs = Inr repoIDs"
| "repoIDsLoop (idStr0 # rest) repoIDs =
     (let idStr = TrimSpace idStr0 in
      if idStr = [] then repoIDsLoop rest repoIDs
      else (case Atoi idStr of
              Inl err \<Rightarrow> Inl (ErrInvalidRepoID idStr err)
            | Inr i \<Rightarrow> repoIDsLoop rest (repoIDs @ [i])))"

text \<open>
  What follows the choice of the source: the checks on the number of items and the
  conversion. The result is \<open>None\<close> for Go's nil map.
\<close>

definition convertItems :: "string list \<Rightarrow> bool \<Rightarrow> error + (string \<times> reqvalue) list option" where
  "convertItems items useNames =
     (if length items = 0 then Inr None
      else if length items > 500 then Inl ErrTooManyRepositories
      else if useNames then
        (case repoNamesLoop items [] of
           Inl e \<Rightarrow> Inl e
         | Inr repoNames \<Rightarrow> Inr (Some [(''repositories'', StringSlice repoNames)]))
      else
        (case repoIDsLoop items [] of
           Inl e \<Rightarrow> Inl e
         | Inr repoIDs \<Rightarrow> Inr (Some [(''repository_ids'', IntSlice repoIDs)])))"

definition parseRepositoryData :: "world \<Rightarrow> Args \<Rightarrow> (error + (string \<times> reqvalue) list option) \<times> event list" where
  "parseRepositoryData w args =
     (if RepoIDs args \<noteq> [] then
        (convertItems (Split (TrimSpace (RepoIDs args)) CHR '','') False, [])
      else if RepoNames args \<noteq> [] then
        (convertItems (Split (TrimSpace (RepoNames args)) CHR '','') True, [])
      else if RepoIDsFile args \<noteq> [] then
        (case snd (readFile w (RepoIDsFile args)) of
           Some err \<Rightarrow> (Inl (ErrReadRepoIDsFile err), [ReadFile (RepoIDsFile args)])
         | None \<Rightarrow>
             (convertItems (fileItems (fst (readFile w (RepoIDsFile args)))) False,
              [ReadFile (RepoIDsFile args)]))
      else (convertItems [] False, []))"

section \<open>Exec (plugin.go)\<close>

text \<open>
  The key material (lines 101 to 116): the first populated source in the order inline,
  file, base64. An error of the read or of the decoding is printed and the bytes
  returned with it are kept. \<open>None\<close>: no source is set.
\<close>

definition loadPem :: "world \<Rightarrow> Args \<Rightarrow> string option \<times> event list" where
  "loadPem w args =
     (if Pem args \<noteq> [] then (Some (Pem args), [])
      else if PemFile args \<noteq> [] then
        (Some (fst (readFile w (PemFile args))),
         ReadFile (PemFile args) #
           (case snd (readFile w (PemFile args)) of None \<Rightarrow> [] | Some err \<Rightarrow> [Print err]))
      else if PemB64 args \<noteq> [] then
        (Some (fst (decodeBase64 w (PemB64 args))),
         (case snd (decodeBase64 w (PemB64 args)) of None \<Rightarrow> [] | Some err \<Rightarrow> [Print err]))
      else (None, []))"

text \<open>
  The claims (lines 127 to 137). The map literal calls \<open>time.Now()\<close> once for
  \<open>iat\<close> and once more for \<open>exp\<close>; these are the first two readings of the clock in
  a run. Adding ten minutes adds 600 to the Unix time.
\<close>

definition issuer :: "Args \<Rightarrow> string" where
  "issuer args = (if ClientId args \<noteq> [] then ClientId args else AppId args)"

definition identityClaims :: "world \<Rightarrow> Args \<Rightarrow> claims" where
  "identityClaims w args = \<lparr>iat = now w 0, exp_claim = now w 1 + 600, iss = issuer args\<rparr>"

text \<open>The token exchange and its log lines (lines 151 to 191).\<close>

definition tokenLog :: "TokenResponse \<Rightarrow> event list" where
  "tokenLog tokenData =
     map (\<lambda>repo. LogRepository (Name repo) (ID_repo repo)) (Repositories tokenData)
     @ [LogTokenReceived (ExpiresAt tokenData) (length (Repositories tokenData))
          (Permissions_token tokenData)]"

definition fetchToken :: "world \<Rightarrow> Args \<Rightarrow> string \<Rightarrow> (TokenResponse \<times> error option) go \<times> event list" where
  "fetchToken w args jwtSigned =
     (if Installation args \<noteq> [] then
        (case (if RepoIDs args \<noteq> [] \<or> RepoNames args \<noteq> [] \<or> RepoIDsFile args \<noteq> []
               then parseRepositoryData w args else (Inr None, [])) of
           (Inl e, ev1) \<Rightarrow> (Returns (zeroTokenResponse, Some e), ev1)
         | (Inr repoData, ev1) \<Rightarrow>
             (case (if Permissions args \<noteq> [] then parsePermissions (Permissions args)
                    else Inr None) of
                Inl e \<Rightarrow> (Returns (zeroTokenResponse, Some e), ev1)
              | Inr permissions \<Rightarrow>
                  (case installationToken w jwtSigned (Installation args) repoData permissions of
                     (Panics, ev2) \<Rightarrow> (Panics, ev1 @ ev2)
                   | (Returns (tokenData, Some e), ev2) \<Rightarrow>
                       (Returns (tokenData, Some e), ev1 @ ev2)
                   | (Returns (tokenData, None), ev2) \<Rightarrow>
                       (Returns (tokenData, None), ev1 @ ev2 @ tokenLog tokenData))))
      else (Returns (zeroTokenResponse, None), []))"

text \<open>
  The outputs (lines 193 to 258). Each destination is one step: the error it returns,
  if any, and its effects. The steps run in order and the first error ends the run.
  \<open>config.GetNextgenClient()\<close>, called between the files and the secrets, only
  builds the handle of the secret store that \<open>setSecretText\<close> stands for.
\<close>

primrec runSteps :: "(error option \<times> event list) list \<Rightarrow> error option \<times> event list" where
  "runSteps [] = (None, [])"
| "runSteps (step # rest) =
     (case fst step of
        Some e \<Rightarrow> (Some e, snd step)
      | None \<Rightarrow> (fst (runSteps rest), snd step @ snd (runSteps rest)))"

definition jwtFileStep :: "world \<Rightarrow> Args \<Rightarrow> string \<Rightarrow> error option \<times> event list" where
  "jwtFileStep w args jwtSigned =
     (if JwtFile args \<noteq> [] then
        (writeFile w (JwtFile args) (Text jwtSigned), [WriteFile (JwtFile args) (Text jwtSigned)])
      else (None, []))"

definition tokenFileStep :: "world \<Rightarrow> Args \<Rightarrow> TokenResponse \<Rightarrow> error option \<times> event list" where
  "tokenFileStep w args tokenData =
     (if TokenFile args \<noteq> [] then
        (if Installation args = [] then (None, [LogSkipTokenFile])
         else (writeFile w (TokenFile args) (Text (Token tokenData)),
               [WriteFile (TokenFile args) (Text (Token tokenData))]))
      else (None, []))"

definition jsonFileStep :: "world \<Rightarrow> Args \<Rightarrow> string \<Rightarrow> TokenResponse \<Rightarrow> error option \<times> event list" where
  "jsonFileStep w args jwtSigned tokenData =
     (if JsonFile args \<noteq> [] then
        (let jsonData = \<lparr>Token_json = tokenData, Jwt = jwtSigned,
                          RepositoryCount = length (Repositories tokenData),
                          Permissions_json = Permissions_token tokenData\<rparr>
         in (writeFile w (JsonFile args) (JsonDoc jsonData),
             [WriteFile (JsonFile args) (JsonDoc jsonData)]))
      else (None, []))"

definition secretStep :: "world \<Rightarrow> Args \<Rightarrow> string \<Rightarrow> payload \<Rightarrow> event \<Rightarrow> error option \<times> event list" where
  "secretStep w args name val saved =
     (if name \<noteq> [] then
        (case setSecretText w name val (SecretManager args) of
           Some e \<Rightarrow> (Some e, [SetSecretText name val (SecretManager args)])
         | None \<Rightarrow> (None, [SetSecretText name val (SecretManager args), saved]))
      else (None, []))"

definition jwtSecretStep :: "world \<Rightarrow> Args \<Rightarrow> string \<Rightarrow> error option \<times> event list" where
  "jwtSecretStep w args jwtSigned =
     secretStep w args (JwtSecret args) (Text jwtSigned) (LogJwtSaved (JwtSecret args))"

definition tokenSecretStep :: "world \<Rightarrow> Args \<Rightarrow> TokenResponse \<Rightarrow> error option \<times> event list" where
  "tokenSecretStep w args tokenData =
     secretStep w args (TokenSecret args) (Text (Token tokenData)) (LogTokenSaved (TokenSecret args))"

definition jsonSecretStep :: "world \<Rightarrow> Args \<Rightarrow> error option \<times> event list" where
  "jsonSecretStep w args =
     (let jsonData = zeroJsonOutput
      in secretStep w args (JsonSecret args) (JsonDoc jsonData) (LogJsonSaved (JsonSecret args)))"

definition writeOutputs :: "world \<Rightarrow> Args \<Rightarrow> string \<Rightarrow> TokenResponse \<Rightarrow> error option \<times> event list" where
  "writeOutputs w args jwtSigned tokenData =
     runSteps
       [jwtFileStep w args jwtSigned,
        tokenFileStep w args tokenData,
        jsonFileStep w args jwtSigned tokenData,
        jwtSecretStep w args jwtSigned,
        tokenSecretStep w args tokenData,
        jsonSecretStep w args]"

text \<open>
  What follows the signing (lines 144 to 258): the self-identity check, the token
  exchange, the outputs.
\<close>

definition afterSigning :: "world \<Rightarrow> Args \<Rightarrow> string \<Rightarrow> error option go \<times> event list" where
  "afterSigning w args jwtSigned =
     (case validateJWT w jwtSigned of
        (Panics, ev1) \<Rightarrow> (Panics, ev1)
      | (Returns (appData, Some e), ev1) \<Rightarrow> (Returns (Some e), ev1)
      | (Returns (appData, None), ev1) \<Rightarrow>
          (case fetchToken w args jwtSigned of
             (Panics, ev2) \<Rightarrow> (Panics, ev1 @ [LogAuthenticated (Slug appData)] @ ev2)
           | (Returns (tokenData, Some e), ev2) \<Rightarrow>
               (Returns (Some e), ev1 @ [LogAuthenticated (Slug appData)] @ ev2)
           | (Returns (tokenData, None), ev2) \<Rightarrow>
               (Returns (fst (writeOutputs w args jwtSigned tokenData)),
                ev1 @ [LogAuthenticated (Slug appData)] @ ev2
                  @ snd (writeOutputs w args jwtSigned tokenData))))"

text \<open>
  \<open>Exec\<close>: the error it returns (\<open>None\<close> for nil) or a panic, and the effects of the
  run. The context argument is not used.
\<close>

definition Exec :: "world \<Rightarrow> Args \<Rightarrow> error option go \<times> event list" where
  "Exec w args =
     (if AppId args = [] \<and> ClientId args = [] then (Returns (Some ErrIdentityMissing), [])
      else if AppId args \<noteq> [] \<and> ClientId args \<noteq> [] then (Returns (Some ErrIdentityBoth), [])
      else (case validateRepositoryArgs args of
              Some e \<Rightarrow> (Returns (Some e), [])
            | None \<Rightarrow>
                (case loadPem w args of
                   (None, ev1) \<Rightarrow> (Returns (Some ErrNoPemSource), ev1)
                 | (Some bPem, ev1) \<Rightarrow>
                     if length bPem = 0 then (Returns (Some ErrUnableToParsePem), ev1)
                     else (case parseRSAPrivateKeyFromPEM w bPem of
                             Inl e \<Rightarrow> (Returns (Some e), ev1)
                           | Inr signKey \<Rightarrow>
                               (case signedString w signKey (identityClaims w args) of
                                  Inl e \<Rightarrow> (Returns (Some e), ev1)
                                | Inr jwtSigned \<Rightarrow>
                                    (fst (afterSigning w args jwtSigned),
                                     ev1 @ snd (afterSigning w args jwtSigned)))))))"

section \<open>Concrete runs\<close>

text \<open>
  Arguments with every option empty, and a world in which every call succeeds: the key
  \<open>PEM\<close> parses, GitHub answers the self-identity check with the app \<open>my-app\<close> and
  the token exchange with a token for two repositories.
\<close>

definition noArgs :: Args where
  "noArgs =
     \<lparr>Level = [], AppId = [], ClientId = [], Pem = [], PemFile = [], PemB64 = [],
      Installation = [], JwtFile = [], TokenFile = [], JsonFile = [], JwtSecret = [],
      TokenSecret = [], JsonSecret = [], SecretManager = [], RepoIDs = [], RepoNames = [],
      RepoIDsFile = [], Permissions = []\<rparr>"

definition grantedToken :: TokenResponse where
  "grantedToken =
     \<lparr>Token = ''ghs_abc'', ExpiresAt = ''2030-01-01T00:00:00Z'',
      Permissions_token = [(''contents'', ''read'')], RepositorySelection = ''selected'',
      Repositories = [\<lparr>ID_repo = 10, Name = ''a''\<rparr>, \<lparr>ID_repo = 20, Name = ''b''\<rparr>]\<rparr>"

definition okWorld :: world where
  "okWorld =
     \<lparr>now = (\<lambda>k. 1700000000),
      readFile = (\<lambda>path. ([], Some (LibError ''no such file or directory''))),
      decodeBase64 = (\<lambda>s. ([], Some (LibError ''illegal base64 data''))),
      parseRSAPrivateKeyFromPEM =
        (\<lambda>b. if b = ''PEM'' then Inr 1 else Inl (LibError ''invalid key'')),
      signedString = (\<lambda>k c. Inr ''signed''),
      newRequest = (\<lambda>m u. None),
      doRequest =
        (\<lambda>req. if Method req = ''GET''
               then (Some \<lparr>StatusCode = 200, readAll = (''app'', None)\<rparr>, None)
               else (Some \<lparr>StatusCode = 201, readAll = (''token'', None)\<rparr>, None)),
      unmarshalApp = (\<lambda>b. (\<lparr>ID = 7, Slug = ''my-app''\<rparr>, None)),
      unmarshalToken = (\<lambda>b. (grantedToken, None)),
      writeFile = (\<lambda>path c. None),
      setSecretText = (\<lambda>name v manager. None)\<rparr>"

definition identityRequest :: "string \<Rightarrow> request" where
  "identityRequest jwt =
     \<lparr>Method = ''GET'', URL = ''https://api.github.com/app'',
      Header = [(''Accept'', ''application/vnd.github+json''),
                 (''Authorization'', ''Bearer '' @ jwt)],
      Body = EmptyBody\<rparr>"

text \<open>
  A world whose clock passes a full second between the two readings, and whose signer
  tells the assertions with a lifetime of 600 seconds from the others.
\<close>

definition tickWorld :: world where
  "tickWorld =
     okWorld\<lparr>now := (\<lambda>k. if k = 0 then 1700000000 else 1700000001),
             signedString :=
               (\<lambda>k c. Inr (if exp_claim c - iat c = 600 then ''signed-600'' else ''signed-other''))\<rparr>"

definition clientArgs :: Args where
  "clientArgs = noArgs\<lparr>ClientId := ''Iv1.test'', Pem := ''PEM'', JwtFile := ''jwt.txt''\<rparr>"

text \<open>Arguments with two key sources populated.\<close>

definition twoKeyArgs :: Args where
  "twoKeyArgs = noArgs\<lparr>AppId := ''264043'', Pem := ''PEM'', PemB64 := ''UEVN''\<rparr>"

text \<open>
  A world in which GitHub rejects the assertion: status 401 and the usual error
  document, which \<open>json.Unmarshal\<close> decodes into an \<open>AppResponse\<close> without error
  (no field matches, the struct keeps its zero value). And a world in which the
  connection fails.
\<close>

definition body401 :: string where
  \<open>body401 = ''{"message":"Bad credentials"}''\<close>

definition world401 :: world where
  "world401 =
     okWorld\<lparr>doRequest := (\<lambda>req. (Some \<lparr>StatusCode = 401, readAll = (body401, None)\<rparr>, None)),
             unmarshalApp := (\<lambda>b. if b = body401 then (zeroAppResponse, None)
                                    else (\<lparr>ID = 7, Slug = ''my-app''\<rparr>, None))\<rparr>"

definition offlineWorld :: world where
  "offlineWorld =
     okWorld\<lparr>doRequest := (\<lambda>req. (None, Some (LibError ''dial tcp: connection refused'')))\<rparr>"

text \<open>Arguments asking for the JSON document in a secret, after a token exchange.\<close>

definition jsonSecretArgs :: Args where
  "jsonSecretArgs =
     noArgs\<lparr>ClientId := ''Iv1.test'', Pem := ''PEM'', Installation := ''12345'',
            JsonSecret := ''github_json''\<rparr>"

text \<open>Arguments asking for the token in a file and in a secret, with no installation.\<close>

definition tokenSecretArgs :: Args where
  "tokenSecretArgs =
     noArgs\<lparr>ClientId := ''Iv1.test'', Pem := ''PEM'', TokenFile := ''token.txt'',
            TokenSecret := ''github_token''\<rparr>"

section \<open>Notions used in the statements\<close>

text \<open>
  The items of a permission string that the loop of \<open>parsePermissions\<close> does not
  skip; an item that splits on colons into exactly two parts, both non-empty once
  trimmed; and the resource and permission of such an item.
\<close>

definition permissionItems :: "string \<Rightarrow> string list" where
  "permissionItems s =
     filter (\<lambda>item. item \<noteq> []) (map TrimSpace (Split (TrimSpace s) CHR '',''))"

definition validItem :: "string \<Rightarrow> bool" where
  "validItem item =
     (length (Split item CHR '':'') = 2
      \<and> TrimSpace (Split item CHR '':'' ! 0) \<noteq> []
      \<and> TrimSpace (Split item CHR '':'' ! 1) \<noteq> [])"

definition itemPair :: "string \<Rightarrow> string \<times> string" where
  "itemPair item = (TrimSpace (Split item CHR '':'' ! 0), TrimSpace (Split item CHR '':'' ! 1))"

text \<open>
  The request of the token exchange for a given \<open>reqData\<close>: a JSON body and a
  \<open>Content-Type\<close> header when \<open>reqData\<close> has an entry, neither when it has none.
\<close>

definition tokenRequest :: "string \<Rightarrow> string \<Rightarrow> (string \<times> reqvalue) list \<Rightarrow> request" where
  "tokenRequest jwt installation reqData =
     \<lparr>Method = ''POST'',
      URL = ''https://api.github.com/app/installations/'' @ installation @ ''/access_tokens'',
      Header = [(''Accept'', ''application/vnd.github+json''),
                (''Authorization'', ''Bearer '' @ jwt)]
               @ (if reqData = [] then [] else [(''Content-Type'', ''application/json'')]),
      Body = (if reqData = [] then EmptyBody else JsonBody reqData)\<rparr>"

text \<open>
  A file content with every newline replaced by a comma: two contents that differ only
  in the choice between the two delimiters have the same image.
\<close>

definition unifyDelimiters :: "string \<Rightarrow> string" where
  "unifyDelimiters content = map (\<lambda>c. if c = CHR 0x0A then CHR '','' else c) content"

text \<open>
  For the proofs about \<open>TrimSpace\<close>: a list of encodings none of which is empty or
  starts another; a list of encodings in which no first byte occurs after the first
  byte of an encoding; and a string that is a sequence of encodings.
\<close>

definition prefixFree :: "string list \<Rightarrow> bool" where
  "prefixFree encs =
     list_all (\<lambda>e. e \<noteq> [] \<and> list_all (\<lambda>e'. take (length e) e' = e \<longrightarrow> e' = e) encs) encs"

definition noInnerHead :: "string list \<Rightarrow> bool" where
  "noInnerHead encs = list_all (\<lambda>e. list_all (\<lambda>e'. hd e' \<notin> set (tl e)) encs) encs"

definition spaceSeq :: "string list \<Rightarrow> string \<Rightarrow> bool" where
  "spaceSeq encs a = (\<exists>es. set es \<subseteq> set encs \<and> a = concat es)"

section \<open>Properties\<close>

lemmas exec_defs =
  Exec_def afterSigning_def validateJWT_def fetchToken_def writeOutputs_def loadPem_def
  identityClaims_def issuer_def jwtFileStep_def tokenFileStep_def jsonFileStep_def
  secretStep_def jwtSecretStep_def tokenSecretStep_def jsonSecretStep_def
  validateRepositoryArgs_def repoArgsCount_def installationToken_def buildReqData_def
  tokenLog_def zeroTokenResponse_def zeroJsonOutput_def zeroAppResponse_def

lemmas run_defs = okWorld_def noArgs_def grantedToken_def identityRequest_def

subsection \<open>The identity claims\<close>

text \<open>
  The issuer is the Client ID when it is set and the App ID otherwise. The lifetime
  written into the claims is 600 seconds plus the time that passes between the two
  readings of the clock.
\<close>

lemma identityClaims_iss:
  "iss (identityClaims w args) = (if ClientId args \<noteq> [] then ClientId args else AppId args)"
  by (simp add: identityClaims_def issuer_def)

lemma identityClaims_lifetime:
  "exp_claim (identityClaims w args) - iat (identityClaims w args) = 600 + (now w 1 - now w 0)"
  by (simp add: identityClaims_def)

text \<open>
  C1. With one identity source and a key that parses, the claims of the assertion have
  \<open>exp - iat = 600\<close> and the given identity as issuer. The code reads the clock once
  for \<open>iat\<close> and again for \<open>exp\<close>: in a run where the second changes between the
  two readings, \<open>Exec\<close> signs claims with \<open>exp - iat = 601\<close> and writes that assertion
  to the JWT file.
\<close>

theorem Exec_claims_lifetime_601:
  "identityClaims tickWorld clientArgs =
     \<lparr>iat = 1700000000, exp_claim = 1700000601, iss = ''Iv1.test''\<rparr>
   \<and> exp_claim (identityClaims tickWorld clientArgs) - iat (identityClaims tickWorld clientArgs) = 601
   \<and> Exec tickWorld clientArgs =
       (Returns None,
        [HttpDo (identityRequest ''signed-other''), LogAuthenticated ''my-app'',
         WriteFile ''jwt.txt'' (Text ''signed-other'')])"
  by (simp add: exec_defs run_defs tickWorld_def clientArgs_def)

subsection \<open>Validation of the identity\<close>

text \<open>
  C2. When both the App ID and the Client ID are set, or both are empty, \<open>Exec\<close>
  returns an error and the run has no effect at all: no network call, no file read or
  written, no secret set, nothing logged.
\<close>

theorem Exec_identity_rejected_first:
  "(AppId args \<noteq> [] \<and> ClientId args \<noteq> []) \<or> (AppId args = [] \<and> ClientId args = [])
   \<Longrightarrow> Exec w args =
       (Returns (Some (if AppId args = [] then ErrIdentityMissing else ErrIdentityBoth)), [])"
  by (auto simp: Exec_def)

theorem Exec_identity_rejected_first_witness:
  "Exec okWorld (noArgs\<lparr>AppId := ''264043'', ClientId := ''Iv1.test'', Pem := ''PEM''\<rparr>)
     = (Returns (Some ErrIdentityBoth), [])
   \<and> Exec okWorld (noArgs\<lparr>Pem := ''PEM''\<rparr>) = (Returns (Some ErrIdentityMissing), [])"
  using Exec_identity_rejected_first
          [of "noArgs\<lparr>AppId := ''264043'', ClientId := ''Iv1.test'', Pem := ''PEM''\<rparr>" okWorld]
        Exec_identity_rejected_first [of "noArgs\<lparr>Pem := ''PEM''\<rparr>" okWorld]
  by (simp add: noArgs_def)

subsection \<open>The self-identity check\<close>

text \<open>
  The result of \<open>validateJWT\<close> does not depend on the status code of the response. A
  body that does not decode is an error.
\<close>

lemma validateJWT_ignores_status:
  "validateJWT
     (w\<lparr>doRequest := (\<lambda>req. (map_option (\<lambda>resp. resp\<lparr>StatusCode := code\<rparr>) (fst (doRequest w req)),
                               snd (doRequest w req)))\<rparr>) jwt
   = validateJWT w jwt"
  by (simp add: validateJWT_def Let_def split: option.splits)

lemma validateJWT_decode_error:
  "newRequest w ''GET'' ''https://api.github.com/app'' = None
   \<Longrightarrow> fst (doRequest w (identityRequest jwt)) = Some resp
   \<Longrightarrow> snd (readAll resp) = None
   \<Longrightarrow> snd (unmarshalApp w (fst (readAll resp))) = Some e
   \<Longrightarrow> \<exists>r. fst (validateJWT w jwt) = Returns (r, Some e)"
  by (cases "unmarshalApp w (fst (readAll resp))")
     (simp add: validateJWT_def identityRequest_def Let_def)

text \<open>
  C4. \<open>validateJWT\<close> is to return an error on a transport error, on a status that is
  not 2xx and on a body that does not decode. The code never looks at the status and
  drops the error of \<open>client.Do\<close>: on a 401 response with GitHub's error document it
  returns the zero \<open>AppResponse\<close> and no error, and with no connection it dereferences
  the nil response and panics.
\<close>

theorem validateJWT_accepts_401:
  "validateJWT world401 ''signed'' =
     (Returns (\<lparr>ID = 0, Slug = []\<rparr>, None), [HttpDo (identityRequest ''signed'')])
   \<and> fst (doRequest world401 (identityRequest ''signed''))
       = Some \<lparr>StatusCode = 401, readAll = (body401, None)\<rparr>
   \<and> validateJWT offlineWorld ''signed'' = (Panics, [HttpDo (identityRequest ''signed'')])"
  by (simp add: exec_defs run_defs world401_def offlineWorld_def)

subsection \<open>The outputs\<close>

text \<open>The JSON file holds the assertion, the token, the count and the permissions.\<close>

lemma jsonFileStep_document:
  "JsonFile args \<noteq> []
   \<Longrightarrow> snd (jsonFileStep w args jwtSigned tokenData) =
       [WriteFile (JsonFile args)
          (JsonDoc \<lparr>Token_json = tokenData, Jwt = jwtSigned,
                    RepositoryCount = length (Repositories tokenData),
                    Permissions_json = Permissions_token tokenData\<rparr>)]"
  by (simp add: jsonFileStep_def Let_def)

text \<open>
  C5. A requested JSON destination is to hold the assertion in \<open>jwt\<close>, the token in
  \<open>token\<close>, the number of repositories and the permissions. For the JSON secret the
  code marshals an empty \<open>JsonOutput\<close>: after a successful exchange that returned the
  token \<open>ghs_abc\<close> for two repositories, the secret holds the zero document.
\<close>

theorem Exec_json_secret_empty:
  "Exec okWorld jsonSecretArgs =
     (Returns None,
      [HttpDo (identityRequest ''signed''), LogAuthenticated ''my-app'',
       HttpDo \<lparr>Method = ''POST'',
               URL = ''https://api.github.com/app/installations/12345/access_tokens'',
               Header = [(''Accept'', ''application/vnd.github+json''),
                          (''Authorization'', ''Bearer signed'')],
               Body = EmptyBody\<rparr>,
       LogRepository ''a'' 10, LogRepository ''b'' 20,
       LogTokenReceived ''2030-01-01T00:00:00Z'' 2 [(''contents'', ''read'')],
       SetSecretText ''github_json''
         (JsonDoc \<lparr>Token_json = zeroTokenResponse, Jwt = [], RepositoryCount = 0,
                   Permissions_json = []\<rparr>) [],
       LogJsonSaved ''github_json''])"
  by (simp add: exec_defs run_defs jsonSecretArgs_def)

text \<open>
  With no installation ID the token stays the zero \<open>TokenResponse\<close> and the token file
  is skipped with a warning; the step of the token secret sets the secret whenever its
  name is given.
\<close>

lemma fetchToken_no_installation:
  "Installation args = [] \<Longrightarrow> fetchToken w args jwtSigned = (Returns (zeroTokenResponse, None), [])"
  by (simp add: fetchToken_def)

lemma tokenFileStep_skipped:
  "Installation args = [] \<Longrightarrow> TokenFile args \<noteq> []
   \<Longrightarrow> tokenFileStep w args tokenData = (None, [LogSkipTokenFile])"
  by (simp add: tokenFileStep_def)

lemma tokenSecretStep_not_skipped:
  "TokenSecret args \<noteq> []
   \<Longrightarrow> SetSecretText (TokenSecret args) (Text (Token tokenData)) (SecretManager args)
         \<in> set (snd (tokenSecretStep w args tokenData))"
  by (simp add: tokenSecretStep_def secretStep_def split: option.splits)

text \<open>
  C10. With no installation ID the token outputs are to be skipped with a warning. The
  token file is; the token secret is not: the code sets the secret to the empty token
  and logs that the token was saved.
\<close>

theorem Exec_token_secret_not_skipped:
  "Installation tokenSecretArgs = []
   \<and> Exec okWorld tokenSecretArgs =
       (Returns None,
        [HttpDo (identityRequest ''signed''), LogAuthenticated ''my-app'',
         LogSkipTokenFile,
         SetSecretText ''github_token'' (Text []) [], LogTokenSaved ''github_token''])"
  by (simp add: exec_defs run_defs tokenSecretArgs_def)

subsection \<open>Validation of the repository selection\<close>

text \<open>
  C6. \<open>Exec\<close> returns an error, with no effect, when more than one of the three
  selection options is non-empty, and when a selection option is non-empty while the
  installation ID is empty; with at most one selection option and an installation ID,
  \<open>validateRepositoryArgs\<close> passes.
\<close>

theorem validateRepositoryArgs_selection:
  "((RepoIDs args \<noteq> [] \<and> RepoNames args \<noteq> []) \<or> (RepoIDs args \<noteq> [] \<and> RepoIDsFile args \<noteq> [])
      \<or> (RepoNames args \<noteq> [] \<and> RepoIDsFile args \<noteq> [])
     \<longrightarrow> validateRepositoryArgs args = Some ErrRepoArgsExclusive
         \<and> (\<exists>e. Exec w args = (Returns (Some e), [])))
   \<and> ((RepoIDs args \<noteq> [] \<or> RepoNames args \<noteq> [] \<or> RepoIDsFile args \<noteq> [])
        \<and> Installation args = []
     \<longrightarrow> validateRepositoryArgs args \<noteq> None
         \<and> (\<exists>e. Exec w args = (Returns (Some e), [])))
   \<and> (\<not> ((RepoIDs args \<noteq> [] \<and> RepoNames args \<noteq> []) \<or> (RepoIDs args \<noteq> [] \<and> RepoIDsFile args \<noteq> [])
           \<or> (RepoNames args \<noteq> [] \<and> RepoIDsFile args \<noteq> []))
        \<and> Installation args \<noteq> []
     \<longrightarrow> validateRepositoryArgs args = None)"
  by (auto simp: Exec_def validateRepositoryArgs_def repoArgsCount_def)

text \<open>The three cases of C6 on concrete arguments.\<close>

theorem validateRepositoryArgs_selection_witness:
  "Exec okWorld (noArgs\<lparr>AppId := ''264043'', Pem := ''PEM'', Installation := ''12345'',
                        RepoIDs := ''10,20'', RepoNames := ''a,b''\<rparr>)
     = (Returns (Some ErrRepoArgsExclusive), [])
   \<and> Exec okWorld (noArgs\<lparr>AppId := ''264043'', Pem := ''PEM'', RepoNames := ''a,b''\<rparr>)
     = (Returns (Some ErrInstallationRequired), [])
   \<and> validateRepositoryArgs (noArgs\<lparr>AppId := ''264043'', Pem := ''PEM'', Installation := ''12345'',
                        RepoIDsFile := ''ids.txt''\<rparr>) = None"
proof -
  let ?a1 = "noArgs\<lparr>AppId := ''264043'', Pem := ''PEM'', Installation := ''12345'',
                        RepoIDs := ''10,20'', RepoNames := ''a,b''\<rparr>"
  let ?a2 = "noArgs\<lparr>AppId := ''264043'', Pem := ''PEM'', RepoNames := ''a,b''\<rparr>"
  let ?a3 = "noArgs\<lparr>AppId := ''264043'', Pem := ''PEM'', Installation := ''12345'',
                        RepoIDsFile := ''ids.txt''\<rparr>"
  have h1: "RepoIDs ?a1 \<noteq> [] \<and> RepoNames ?a1 \<noteq> []" by simp
  have h2: "RepoNames ?a2 \<noteq> [] \<and> Installation ?a2 = []" by (simp add: noArgs_def)
  have h3: "RepoIDs ?a3 = [] \<and> RepoNames ?a3 = [] \<and> Installation ?a3 \<noteq> []" by (simp add: noArgs_def)
  from validateRepositoryArgs_selection [of ?a1 okWorld] h1
  obtain e1 where e1: "validateRepositoryArgs ?a1 = Some ErrRepoArgsExclusive"
      "Exec okWorld ?a1 = (Returns (Some e1), [])" by blast
  from validateRepositoryArgs_selection [of ?a2 okWorld] h2
  obtain e2 where e2: "validateRepositoryArgs ?a2 \<noteq> None"
      "Exec okWorld ?a2 = (Returns (Some e2), [])" by blast
  from validateRepositoryArgs_selection [of ?a3 okWorld] h3
  have e3: "validateRepositoryArgs ?a3 = None" by blast
  have "Exec okWorld ?a1 = (Returns (validateRepositoryArgs ?a1), [])"
    using e1 by (simp add: Exec_def noArgs_def)
  moreover have "Exec okWorld ?a2 = (Returns (Some ErrInstallationRequired), [])"
    using e2 by (simp add: Exec_def noArgs_def validateRepositoryArgs_def repoArgsCount_def)
  ultimately show ?thesis using e1 e3 by simp
qed

subsection \<open>The key material\<close>

text \<open>
  C3, as stated, asks for a key-material error also when more than one key source is
  populated. The code takes the first populated source in the order inline PEM, PEM
  file, base64 PEM and ignores the others: with an inline key and a base64 key both
  set, the run succeeds.
\<close>

theorem Exec_two_keys_accepted:
  "Pem twoKeyArgs \<noteq> [] \<and> PemB64 twoKeyArgs \<noteq> []
   \<and> Exec okWorld twoKeyArgs =
       (Returns None, [HttpDo (identityRequest ''signed''), LogAuthenticated ''my-app''])"
  by (simp add: exec_defs run_defs twoKeyArgs_def)

text \<open>
  Once the identity and the repository selection are valid, \<open>Exec\<close> is what follows
  the loading of the key. Nothing after the signing reads the three key options.
\<close>

lemma Exec_after_validation:
  assumes "(AppId args = []) \<noteq> (ClientId args = [])"
    and "validateRepositoryArgs args = None"
  shows "Exec w args =
     (case loadPem w args of
        (None, ev1) \<Rightarrow> (Returns (Some ErrNoPemSource), ev1)
      | (Some bPem, ev1) \<Rightarrow>
          if bPem = [] then (Returns (Some ErrUnableToParsePem), ev1)
          else (case parseRSAPrivateKeyFromPEM w bPem of
                  Inl e \<Rightarrow> (Returns (Some e), ev1)
                | Inr signKey \<Rightarrow>
                    (case signedString w signKey (identityClaims w args) of
                       Inl e \<Rightarrow> (Returns (Some e), ev1)
                     | Inr jwtSigned \<Rightarrow>
                         (fst (afterSigning w args jwtSigned),
                          ev1 @ snd (afterSigning w args jwtSigned)))))"
  using assms by (auto simp: Exec_def split: prod.splits option.splits sum.splits)

lemma key_options_other_fields:
  "Installation (args\<lparr>Pem := p, PemFile := f, PemB64 := b\<rparr>) = Installation args"
  "RepoIDs (args\<lparr>Pem := p, PemFile := f, PemB64 := b\<rparr>) = RepoIDs args"
  "RepoNames (args\<lparr>Pem := p, PemFile := f, PemB64 := b\<rparr>) = RepoNames args"
  "RepoIDsFile (args\<lparr>Pem := p, PemFile := f, PemB64 := b\<rparr>) = RepoIDsFile args"
  "Permissions (args\<lparr>Pem := p, PemFile := f, PemB64 := b\<rparr>) = Permissions args"
  "JwtFile (args\<lparr>Pem := p, PemFile := f, PemB64 := b\<rparr>) = JwtFile args"
  "TokenFile (args\<lparr>Pem := p, PemFile := f, PemB64 := b\<rparr>) = TokenFile args"
  "JsonFile (args\<lparr>Pem := p, PemFile := f, PemB64 := b\<rparr>) = JsonFile args"
  "JwtSecret (args\<lparr>Pem := p, PemFile := f, PemB64 := b\<rparr>) = JwtSecret args"
  "TokenSecret (args\<lparr>Pem := p, PemFile := f, PemB64 := b\<rparr>) = TokenSecret args"
  "JsonSecret (args\<lparr>Pem := p, PemFile := f, PemB64 := b\<rparr>) = JsonSecret args"
  "SecretManager (args\<lparr>Pem := p, PemFile := f, PemB64 := b\<rparr>) = SecretManager args"
  "AppId (args\<lparr>Pem := p, PemFile := f, PemB64 := b\<rparr>) = AppId args"
  "ClientId (args\<lparr>Pem := p, PemFile := f, PemB64 := b\<rparr>) = ClientId args"
  by simp_all

lemma afterSigning_key_options:
  "afterSigning w (args\<lparr>Pem := p, PemFile := f, PemB64 := b\<rparr>) jwtSigned = afterSigning w args jwtSigned"
  unfolding afterSigning_def fetchToken_def parseRepositoryData_def writeOutputs_def
    jwtFileStep_def tokenFileStep_def jsonFileStep_def secretStep_def jwtSecretStep_def
    tokenSecretStep_def jsonSecretStep_def key_options_other_fields
  by (rule refl)

text \<open>
  C3, amended. When the identity and the repository selection are valid, \<open>Exec\<close> takes
  the key bytes from the first populated source in the order inline PEM, PEM file,
  base64 PEM, and reads no later source. It returns a key-material error when no
  source is populated, when the bytes are empty, and when they fail to parse as an RSA
  private key (the error of the parser), having done nothing but read the key. When
  they parse, it signs the claims with that key and goes on, whatever the later
  sources hold: populating them changes neither the result nor the effects.
\<close>

theorem Exec_key_material:
  assumes "(AppId args = []) \<noteq> (ClientId args = [])"
    and "validateRepositoryArgs args = None"
    and "bPem = (if Pem args \<noteq> [] then Pem args
                 else if PemFile args \<noteq> [] then fst (readFile w (PemFile args))
                 else fst (decodeBase64 w (PemB64 args)))"
    and "ev = (if Pem args \<noteq> [] then []
               else if PemFile args \<noteq> [] then
                 ReadFile (PemFile args) #
                   (case snd (readFile w (PemFile args)) of None \<Rightarrow> [] | Some err \<Rightarrow> [Print err])
               else (case snd (decodeBase64 w (PemB64 args)) of None \<Rightarrow> [] | Some err \<Rightarrow> [Print err]))"
  shows "(Pem args = [] \<and> PemFile args = [] \<and> PemB64 args = []
            \<longrightarrow> Exec w args = (Returns (Some ErrNoPemSource), []))
     \<and> ((Pem args \<noteq> [] \<or> PemFile args \<noteq> [] \<or> PemB64 args \<noteq> []) \<and> bPem = []
            \<longrightarrow> Exec w args = (Returns (Some ErrUnableToParsePem), ev))
     \<and> (\<forall>e. (Pem args \<noteq> [] \<or> PemFile args \<noteq> [] \<or> PemB64 args \<noteq> []) \<and> bPem \<noteq> []
              \<and> parseRSAPrivateKeyFromPEM w bPem = Inl e
            \<longrightarrow> Exec w args = (Returns (Some e), ev))
     \<and> (\<forall>signKey e. (Pem args \<noteq> [] \<or> PemFile args \<noteq> [] \<or> PemB64 args \<noteq> []) \<and> bPem \<noteq> []
              \<and> parseRSAPrivateKeyFromPEM w bPem = Inr signKey
              \<and> signedString w signKey (identityClaims w args) = Inl e
            \<longrightarrow> Exec w args = (Returns (Some e), ev))
     \<and> (\<forall>signKey jwtSigned. (Pem args \<noteq> [] \<or> PemFile args \<noteq> [] \<or> PemB64 args \<noteq> []) \<and> bPem \<noteq> []
              \<and> parseRSAPrivateKeyFromPEM w bPem = Inr signKey
              \<and> signedString w signKey (identityClaims w args) = Inr jwtSigned
            \<longrightarrow> Exec w args =
                  (fst (afterSigning w args jwtSigned), ev @ snd (afterSigning w args jwtSigned)))
     \<and> (\<forall>f b. Pem args \<noteq> [] \<longrightarrow> Exec w (args\<lparr>PemFile := f, PemB64 := b\<rparr>) = Exec w args)
     \<and> (\<forall>b. Pem args = [] \<and> PemFile args \<noteq> [] \<longrightarrow> Exec w (args\<lparr>PemB64 := b\<rparr>) = Exec w args)"
proof -
  have l: "loadPem w args =
      (if Pem args = [] \<and> PemFile args = [] \<and> PemB64 args = [] then (None, []) else (Some bPem, ev))"
    using assms(3,4) by (simp add: loadPem_def)
  note x = Exec_after_validation [OF assms(1,2), of w]
  have c1: "Pem args = [] \<and> PemFile args = [] \<and> PemB64 args = []
            \<longrightarrow> Exec w args = (Returns (Some ErrNoPemSource), [])"
    using x l by simp
  have c2: "(Pem args \<noteq> [] \<or> PemFile args \<noteq> [] \<or> PemB64 args \<noteq> []) \<and> bPem = []
            \<longrightarrow> Exec w args = (Returns (Some ErrUnableToParsePem), ev)"
    using x l by auto
  have c3: "\<forall>e. (Pem args \<noteq> [] \<or> PemFile args \<noteq> [] \<or> PemB64 args \<noteq> []) \<and> bPem \<noteq> []
              \<and> parseRSAPrivateKeyFromPEM w bPem = Inl e
            \<longrightarrow> Exec w args = (Returns (Some e), ev)"
    using x l by auto
  have c4: "\<forall>signKey e. (Pem args \<noteq> [] \<or> PemFile args \<noteq> [] \<or> PemB64 args \<noteq> []) \<and> bPem \<noteq> []
              \<and> parseRSAPrivateKeyFromPEM w bPem = Inr signKey
              \<and> signedString w signKey (identityClaims w args) = Inl e
            \<longrightarrow> Exec w args = (Returns (Some e), ev)"
    using x l by auto
  have c5: "\<forall>signKey jwtSigned. (Pem args \<noteq> [] \<or> PemFile args \<noteq> [] \<or> PemB64 args \<noteq> []) \<and> bPem \<noteq> []
              \<and> parseRSAPrivateKeyFromPEM w bPem = Inr signKey
              \<and> signedString w signKey (identityClaims w args) = Inr jwtSigned
            \<longrightarrow> Exec w args =
                  (fst (afterSigning w args jwtSigned), ev @ snd (afterSigning w args jwtSigned))"
    using x l by auto
  have i: "\<And>p f b. identityClaims w (args\<lparr>Pem := p, PemFile := f, PemB64 := b\<rparr>) = identityClaims w args"
      "\<And>p f b. validateRepositoryArgs (args\<lparr>Pem := p, PemFile := f, PemB64 := b\<rparr>)
         = validateRepositoryArgs args"
    by (simp_all add: identityClaims_def issuer_def validateRepositoryArgs_def repoArgsCount_def)
  have e: "Exec w (args\<lparr>Pem := p, PemFile := f, PemB64 := b\<rparr>) = Exec w args"
    if same: "loadPem w (args\<lparr>Pem := p, PemFile := f, PemB64 := b\<rparr>) = loadPem w args"
    for p f b
    unfolding Exec_def i afterSigning_key_options key_options_other_fields same by (rule refl)
  have c6: "\<forall>f b. Pem args \<noteq> [] \<longrightarrow> Exec w (args\<lparr>PemFile := f, PemB64 := b\<rparr>) = Exec w args"
  proof (intro allI impI)
    fix f b
    assume "Pem args \<noteq> []"
    then have "loadPem w (args\<lparr>Pem := Pem args, PemFile := f, PemB64 := b\<rparr>) = loadPem w args"
      by (simp add: loadPem_def)
    from e [OF this] show "Exec w (args\<lparr>PemFile := f, PemB64 := b\<rparr>) = Exec w args"
      by simp
  qed
  have c7: "\<forall>b. Pem args = [] \<and> PemFile args \<noteq> [] \<longrightarrow> Exec w (args\<lparr>PemB64 := b\<rparr>) = Exec w args"
  proof (intro allI impI)
    fix b
    assume "Pem args = [] \<and> PemFile args \<noteq> []"
    then have "loadPem w (args\<lparr>Pem := Pem args, PemFile := PemFile args, PemB64 := b\<rparr>) = loadPem w args"
      by (simp add: loadPem_def)
    from e [OF this] show "Exec w (args\<lparr>PemB64 := b\<rparr>) = Exec w args"
      by simp
  qed
  from c1 c2 c3 c4 c5 c6 c7 show ?thesis by blast
qed

text \<open>
  The three errors of C3 on concrete arguments, and a run with two key sources that
  succeeds without reading the key file.
\<close>

theorem Exec_key_material_witness:
  "Exec okWorld (noArgs\<lparr>AppId := ''264043''\<rparr>) = (Returns (Some ErrNoPemSource), [])
   \<and> Exec okWorld (noArgs\<lparr>AppId := ''264043'', PemFile := ''missing.pem'', PemB64 := ''UEVN''\<rparr>)
       = (Returns (Some ErrUnableToParsePem),
          [ReadFile ''missing.pem'', Print (LibError ''no such file or directory'')])
   \<and> Exec okWorld (noArgs\<lparr>AppId := ''264043'', Pem := ''not a key''\<rparr>)
       = (Returns (Some (LibError ''invalid key'')), [])
   \<and> Exec okWorld (noArgs\<lparr>AppId := ''264043'', Pem := ''PEM'', PemFile := ''missing.pem''\<rparr>)
       = (Returns None, [HttpDo (identityRequest ''signed''), LogAuthenticated ''my-app''])"
proof -
  let ?a1 = "noArgs\<lparr>AppId := ''264043''\<rparr>"
  let ?a2 = "noArgs\<lparr>AppId := ''264043'', PemFile := ''missing.pem'', PemB64 := ''UEVN''\<rparr>"
  let ?a3 = "noArgs\<lparr>AppId := ''264043'', Pem := ''not a key''\<rparr>"
  let ?a4 = "noArgs\<lparr>AppId := ''264043'', Pem := ''PEM'', PemFile := ''missing.pem''\<rparr>"
  let ?ev2 = "[ReadFile ''missing.pem'', Print (LibError ''no such file or directory'')]"
  have i1: "(AppId ?a1 = []) \<noteq> (ClientId ?a1 = [])" "validateRepositoryArgs ?a1 = None"
    by (simp_all add: noArgs_def validateRepositoryArgs_def repoArgsCount_def)
  have i2: "(AppId ?a2 = []) \<noteq> (ClientId ?a2 = [])" "validateRepositoryArgs ?a2 = None"
    by (simp_all add: noArgs_def validateRepositoryArgs_def repoArgsCount_def)
  have i3: "(AppId ?a3 = []) \<noteq> (ClientId ?a3 = [])" "validateRepositoryArgs ?a3 = None"
    by (simp_all add: noArgs_def validateRepositoryArgs_def repoArgsCount_def)
  have i4: "(AppId ?a4 = []) \<noteq> (ClientId ?a4 = [])" "validateRepositoryArgs ?a4 = None"
    by (simp_all add: noArgs_def validateRepositoryArgs_def repoArgsCount_def)
  have r1: "Exec okWorld ?a1 = (Returns (Some ErrNoPemSource), [])"
    using Exec_key_material [OF i1 refl refl, of okWorld] by (simp add: noArgs_def)
  have r2: "Exec okWorld ?a2 = (Returns (Some ErrUnableToParsePem), ?ev2)"
    using Exec_key_material [OF i2 refl refl, of okWorld] by (simp add: noArgs_def okWorld_def)
  have "parseRSAPrivateKeyFromPEM okWorld ''not a key'' = Inl (LibError ''invalid key'')"
    by (simp add: okWorld_def)
  then have r3: "Exec okWorld ?a3 = (Returns (Some (LibError ''invalid key'')), [])"
    using Exec_key_material [OF i3 refl refl, of okWorld] by (simp add: noArgs_def)
  have "parseRSAPrivateKeyFromPEM okWorld ''PEM'' = Inr 1"
      "signedString okWorld 1 (identityClaims okWorld ?a4) = Inr ''signed''"
    by (simp_all add: okWorld_def)
  then have "Exec okWorld ?a4 =
      (fst (afterSigning okWorld ?a4 ''signed''), [] @ snd (afterSigning okWorld ?a4 ''signed''))"
    using Exec_key_material [OF i4 refl refl, of okWorld] by (simp add: noArgs_def)
  moreover have "afterSigning okWorld ?a4 ''signed''
      = (Returns None, [HttpDo (identityRequest ''signed''), LogAuthenticated ''my-app''])"
    by (simp add: exec_defs run_defs)
  ultimately have r4: "Exec okWorld ?a4 =
      (Returns None, [HttpDo (identityRequest ''signed''), LogAuthenticated ''my-app''])"
    by simp
  from r1 r2 r3 r4 show ?thesis by blast
qed

subsection \<open>Permissions\<close>

lemma permissionsLoop_invalid:
  "\<exists>item \<in> set (filter (\<lambda>i. i \<noteq> []) (map TrimSpace items)). \<not> validItem item
   \<Longrightarrow> \<exists>item \<in> set (filter (\<lambda>i. i \<noteq> []) (map TrimSpace items)).
         \<not> validItem item
         \<and> (permissionsLoop items m = Inl (ErrPermissionFormat item)
            \<or> permissionsLoop items m = Inl (ErrPermissionEmpty item))"
proof (induction items arbitrary: m)
  case Nil
  then show ?case by simp
next
  case (Cons item0 rest)
  show ?case
  proof (cases "TrimSpace item0 = []")
    case True
    with Cons show ?thesis by simp
  next
    case False
    show ?thesis
    proof (cases "validItem (TrimSpace item0)")
      case True
      with False Cons.prems
      have "\<exists>item \<in> set (filter (\<lambda>i. i \<noteq> []) (map TrimSpace rest)). \<not> validItem item"
        by auto
      from Cons.IH [OF this] True False show ?thesis
        by (simp add: validItem_def Let_def)
    next
      case bad: False
      with False show ?thesis
        by (auto simp: validItem_def Let_def)
    qed
  qed
qed

lemma permissionsLoop_valid:
  "\<forall>item \<in> set (filter (\<lambda>i. i \<noteq> []) (map TrimSpace items)). validItem item
   \<Longrightarrow> \<exists>m'. permissionsLoop items m = Inr m'
         \<and> map_of m' = map_of m ++ map_of (rev (map itemPair (filter (\<lambda>i. i \<noteq> []) (map TrimSpace items))))
         \<and> (distinct (map fst m) \<longrightarrow> distinct (map fst m'))"
proof (induction items arbitrary: m)
  case Nil
  then show ?case by simp
next
  case (Cons item0 rest)
  show ?case
  proof (cases "TrimSpace item0 = []")
    case True
    with Cons show ?thesis by simp
  next
    case False
    with Cons.prems have v: "validItem (TrimSpace item0)"
      and r: "\<forall>item \<in> set (filter (\<lambda>i. i \<noteq> []) (map TrimSpace rest)). validItem item"
      by auto
    obtain k p where kp: "itemPair (TrimSpace item0) = (k, p)"
      by (cases "itemPair (TrimSpace item0)")
    from Cons.IH [OF r, of "AList.update k p m"]
    obtain m' where m': "permissionsLoop rest (AList.update k p m) = Inr m'"
      "map_of m' = map_of (AList.update k p m) ++ map_of (rev (map itemPair (filter (\<lambda>i. i \<noteq> []) (map TrimSpace rest))))"
      "distinct (map fst (AList.update k p m)) \<longrightarrow> distinct (map fst m')"
      by blast
    have step: "permissionsLoop (item0 # rest) m = permissionsLoop rest (AList.update k p m)"
      using False v kp by (simp add: validItem_def itemPair_def Let_def)
    have "map_of m' = map_of m ++ map_of (rev (map itemPair (filter (\<lambda>i. i \<noteq> []) (map TrimSpace (item0 # rest)))))"
      using m'(2) False kp by (simp add: update_conv' map_add_upd_left)
    moreover have "distinct (map fst m) \<longrightarrow> distinct (map fst m')"
      using m'(3) by (simp add: distinct_update)
    ultimately show ?thesis using step m'(1) by simp
  qed
qed

lemma parsePermissions_two_items:
  "parsePermissions ''contents:read,issues:write''
     = Inr (Some [(''contents'', ''read''), (''issues'', ''write'')])"
  by code_simp

lemma parsePermissions_three_parts:
  "parsePermissions ''contents:read:extra'' = Inl (ErrPermissionFormat ''contents:read:extra'')"
  by code_simp

lemma parsePermissions_repeated_resource:
  "parsePermissions ''contents:read,contents:write'' = Inr (Some [(''contents'', ''write'')])"
  by code_simp

text \<open>
  C7, as stated, asks for an error on every item that does not split into exactly two
  non-empty parts. A blank item is such an item, and the loop skips it: the string
  \<open>contents:read,\<close> has the items \<open>contents:read\<close> and the empty string, and it
  parses.
\<close>

theorem parsePermissions_blank_item_skipped:
  "Split ''contents:read,'' CHR '','' = [''contents:read'', []]
   \<and> length (Split [] CHR '':'') \<noteq> 2
   \<and> parsePermissions ''contents:read,'' = Inr (Some [(''contents'', ''read'')])"
  by code_simp

text \<open>
  C7, amended. \<open>contents:read,issues:write\<close> parses to the map of \<open>contents\<close> to
  \<open>read\<close> and \<open>issues\<close> to \<open>write\<close>; \<open>contents:read:extra\<close> is an error; in
  \<open>contents:read,contents:write\<close> the last occurrence wins. For every string, blank
  items are skipped; if an item that is not blank fails to split on colons into exactly
  two parts that are non-empty once trimmed, the result is an error naming such an
  item; otherwise the result is a map in which, for every resource, the last
  occurrence wins.
\<close>

theorem parsePermissions_spec:
  "parsePermissions ''contents:read,issues:write''
     = Inr (Some [(''contents'', ''read''), (''issues'', ''write'')])
   \<and> parsePermissions ''contents:read:extra'' = Inl (ErrPermissionFormat ''contents:read:extra'')
   \<and> parsePermissions ''contents:read,contents:write'' = Inr (Some [(''contents'', ''write'')])
   \<and> (s \<noteq> [] \<and> (\<exists>item \<in> set (permissionItems s). \<not> validItem item)
        \<longrightarrow> (\<exists>item \<in> set (permissionItems s). \<not> validItem item
               \<and> (parsePermissions s = Inl (ErrPermissionFormat item)
                  \<or> parsePermissions s = Inl (ErrPermissionEmpty item))))
   \<and> (s \<noteq> [] \<and> (\<forall>item \<in> set (permissionItems s). validItem item)
        \<longrightarrow> (\<exists>m. parsePermissions s = Inr (Some m) \<and> distinct (map fst m)
               \<and> map_of m = map_of (rev (map itemPair (permissionItems s)))))"
proof -
  have bad: "s \<noteq> [] \<and> (\<exists>item \<in> set (permissionItems s). \<not> validItem item)
        \<longrightarrow> (\<exists>item \<in> set (permissionItems s). \<not> validItem item
               \<and> (parsePermissions s = Inl (ErrPermissionFormat item)
                  \<or> parsePermissions s = Inl (ErrPermissionEmpty item)))"
  proof
    assume a: "s \<noteq> [] \<and> (\<exists>item \<in> set (permissionItems s). \<not> validItem item)"
    then have "\<exists>item \<in> set (filter (\<lambda>i. i \<noteq> []) (map TrimSpace (Split (TrimSpace s) CHR '',''))). \<not> validItem item"
      by (simp add: permissionItems_def)
    from permissionsLoop_invalid [OF this, of "[]"] a
    show "\<exists>item \<in> set (permissionItems s). \<not> validItem item
               \<and> (parsePermissions s = Inl (ErrPermissionFormat item)
                  \<or> parsePermissions s = Inl (ErrPermissionEmpty item))"
      by (auto simp: permissionItems_def parsePermissions_def)
  qed
  have good: "s \<noteq> [] \<and> (\<forall>item \<in> set (permissionItems s). validItem item)
        \<longrightarrow> (\<exists>m. parsePermissions s = Inr (Some m) \<and> distinct (map fst m)
               \<and> map_of m = map_of (rev (map itemPair (permissionItems s))))"
  proof
    assume a: "s \<noteq> [] \<and> (\<forall>item \<in> set (permissionItems s). validItem item)"
    then have "\<forall>item \<in> set (filter (\<lambda>i. i \<noteq> []) (map TrimSpace (Split (TrimSpace s) CHR '',''))). validItem item"
      by (simp add: permissionItems_def)
    from permissionsLoop_valid [OF this, of "[]"] a
    show "\<exists>m. parsePermissions s = Inr (Some m) \<and> distinct (map fst m)
               \<and> map_of m = map_of (rev (map itemPair (permissionItems s)))"
      by (auto simp: permissionItems_def parsePermissions_def)
  qed
  from parsePermissions_two_items parsePermissions_three_parts parsePermissions_repeated_resource bad good show ?thesis by blast
qed

text \<open>An offending item and a repeated resource, for C7.\<close>

theorem parsePermissions_spec_witness:
  "parsePermissions ''a:b,c'' = Inl (ErrPermissionFormat ''c'')
   \<and> (\<exists>m. parsePermissions ''a:b, a:c'' = Inr (Some m) \<and> map_of m ''a'' = Some ''c'')"
proof -
  have i1: "permissionItems ''a:b,c'' = [''a:b'', ''c'']"
    by code_simp
  have i2: "permissionItems ''a:b, a:c'' = [''a:b'', ''a:c'']"
    by code_simp
  have v: "validItem ''a:b''" "validItem ''a:c''" "\<not> validItem ''c''"
    by code_simp+
  have p: "itemPair ''a:b'' = (''a'', ''b'')" "itemPair ''a:c'' = (''a'', ''c'')"
    by code_simp+
  have n: "(''a:b,c'' :: string) \<noteq> []" "(''a:b, a:c'' :: string) \<noteq> []"
    by simp_all
  from parsePermissions_spec [of "''a:b,c''"] n(1) i1 v
  have "parsePermissions ''a:b,c'' = Inl (ErrPermissionFormat ''c'')
        \<or> parsePermissions ''a:b,c'' = Inl (ErrPermissionEmpty ''c'')"
    by auto
  moreover have "parsePermissions ''a:b,c'' \<noteq> Inl (ErrPermissionEmpty ''c'')"
    by code_simp
  moreover from parsePermissions_spec [of "''a:b, a:c''"] n(2) i2 v p
  have "\<exists>m. parsePermissions ''a:b, a:c'' = Inr (Some m) \<and> map_of m ''a'' = Some ''c''"
    by auto
  ultimately show ?thesis by blast
qed

subsection \<open>White space and splitting\<close>

text \<open>
  The trimming loop drops exactly a sequence of encodings from the front, and the
  table of white space is such that trimming a piece is not disturbed by white space
  added before or after it.
\<close>

lemma spaceSeq_Nil: "spaceSeq encs []"
  unfolding spaceSeq_def by (rule exI [of _ "[]"]) simp

lemma spaceSeq_Cons: "e \<in> set encs \<Longrightarrow> spaceSeq encs a \<Longrightarrow> spaceSeq encs (e @ a)"
  unfolding spaceSeq_def
proof -
  assume e: "e \<in> set encs" and "\<exists>es. set es \<subseteq> set encs \<and> a = concat es"
  then obtain es where "set es \<subseteq> set encs" "a = concat es" by blast
  with e have "set (e # es) \<subseteq> set encs \<and> e @ a = concat (e # es)" by simp
  then show "\<exists>es. set es \<subseteq> set encs \<and> e @ a = concat es" by blast
qed

lemma leadingSpace_cases:
  "(leadingSpace encs s = 0 \<and> (\<forall>e \<in> set encs. take (length e) s \<noteq> e \<or> e = []))
   \<or> (\<exists>e \<in> set encs. take (length e) s = e \<and> leadingSpace encs s = length e)"
proof (cases "filter (\<lambda>e. take (length e) s = e) encs")
  case Nil
  then have "\<forall>e \<in> set encs. take (length e) s \<noteq> e"
    by (simp add: filter_empty_conv)
  with Nil show ?thesis by (simp add: leadingSpace_def)
next
  case (Cons e es)
  then have "e \<in> set (filter (\<lambda>e. take (length e) s = e) encs)" by simp
  then have "e \<in> set encs" "take (length e) s = e" by auto
  with Cons show ?thesis by (auto simp: leadingSpace_def)
qed

lemma leadingSpace_pos:
  assumes "leadingSpace encs s \<noteq> 0"
  shows "\<exists>e \<in> set encs. e \<noteq> [] \<and> take (length e) s = e \<and> leadingSpace encs s = length e"
  using leadingSpace_cases [of encs s] assms by auto

lemma leadingSpace_le: "leadingSpace encs s \<le> length s"
proof (cases "leadingSpace encs s = 0")
  case True then show ?thesis by simp
next
  case False
  from leadingSpace_pos [OF this] obtain e where "take (length e) s = e" "leadingSpace encs s = length e"
    by blast
  then have "length e \<le> length s"
    by (metis length_take min.cobounded1)
  with \<open>leadingSpace encs s = length e\<close> show ?thesis by simp
qed

lemma leadingSpace_zero:
  assumes "prefixFree encs" and "leadingSpace encs s = 0" and "e \<in> set encs"
  shows "take (length e) s \<noteq> e"
proof
  assume m: "take (length e) s = e"
  from assms(1,3) have "e \<noteq> []" by (auto simp: prefixFree_def list_all_iff)
  have "leadingSpace encs s \<noteq> 0"
  proof (cases "filter (\<lambda>e. take (length e) s = e) encs")
    case Nil
    with m assms(3) show ?thesis by (simp add: filter_empty_conv)
  next
    case (Cons e' es)
    then have "e' \<in> set (filter (\<lambda>e. take (length e) s = e) encs)" by simp
    then have "e' \<in> set encs" by simp
    with assms(1) have "e' \<noteq> []" by (auto simp: prefixFree_def list_all_iff)
    with Cons show ?thesis by (simp add: leadingSpace_def)
  qed
  with assms(2) show False by simp
qed

lemma leadingSpace_enc:
  assumes "prefixFree encs" and "e \<in> set encs"
  shows "leadingSpace encs (e @ y) = length e"
proof -
  from assms have ne: "e \<noteq> []" by (auto simp: prefixFree_def list_all_iff)
  have "leadingSpace encs (e @ y) \<noteq> 0"
    using leadingSpace_zero [OF assms(1) _ assms(2), of "e @ y"] by auto
  from leadingSpace_pos [OF this] obtain e' where e': "e' \<in> set encs" "e' \<noteq> []"
      "take (length e') (e @ y) = e'" "leadingSpace encs (e @ y) = length e'"
    by blast
  have "e' = e"
  proof (cases "length e' \<le> length e")
    case True
    with e'(3) have "take (length e') e = e'" by simp
    with assms e'(1) show ?thesis by (auto simp: prefixFree_def list_all_iff)
  next
    case False
    then have "take (length e) e' = take (length e) (take (length e') (e @ y))"
      using e'(3) by simp
    also have "\<dots> = e"
      using False by (simp add: min_def)
    finally have "take (length e) e' = e" .
    with assms e'(1) show ?thesis by (auto simp: prefixFree_def list_all_iff)
  qed
  with e'(4) show ?thesis by simp
qed

lemma trimFuel_enough:
  "length s \<le> n \<Longrightarrow> length s \<le> m \<Longrightarrow> trimFuel encs n s = trimFuel encs m s"
proof (induction n arbitrary: s m)
  case 0
  then have s: "s = []" by simp
  have "leadingSpace encs [] = 0"
    using leadingSpace_le [of encs "[]"] by simp
  with s show ?case by (cases m) simp_all
next
  case (Suc n)
  show ?case
  proof (cases m)
    case 0
    with Suc.prems have s: "s = []" by simp
    have "leadingSpace encs [] = 0"
      using leadingSpace_le [of encs "[]"] by simp
    with s 0 show ?thesis by simp
  next
    case (Suc m')
    show ?thesis
    proof (cases "leadingSpace encs s = 0")
      case True
      with Suc show ?thesis by simp
    next
      case False
      then have "length (drop (leadingSpace encs s) s) < length s"
        using leadingSpace_le [of encs s] by simp
      with Suc.prems Suc have "length (drop (leadingSpace encs s) s) \<le> n"
          "length (drop (leadingSpace encs s) s) \<le> m'"
        by simp_all
      from Suc.IH [OF this] False Suc show ?thesis by simp
    qed
  qed
qed

lemma trimFuel_unfold:
  "trimFuel encs (length s) s =
     (if leadingSpace encs s = 0 then s
      else trimFuel encs (length (drop (leadingSpace encs s) s)) (drop (leadingSpace encs s) s))"
proof (cases "leadingSpace encs s = 0")
  case True
  then show ?thesis by (cases "length s") simp_all
next
  case False
  then have "length s \<noteq> 0"
    using leadingSpace_le [of encs s] by arith
  then obtain n where n: "length s = Suc n" by (cases "length s") simp_all
  have "length (drop (leadingSpace encs s) s) \<le> n"
    using False n by simp
  then have "trimFuel encs n (drop (leadingSpace encs s) s)
      = trimFuel encs (length (drop (leadingSpace encs s) s)) (drop (leadingSpace encs s) s)"
    by (rule trimFuel_enough) simp
  with False n show ?thesis by simp
qed

lemma trimFuel_enc:
  assumes "prefixFree encs" and "e \<in> set encs"
  shows "trimFuel encs (length (e @ y)) (e @ y) = trimFuel encs (length y) y"
proof -
  from assms have "e \<noteq> []" by (auto simp: prefixFree_def list_all_iff)
  then show ?thesis
    using trimFuel_unfold [of encs "e @ y"] leadingSpace_enc [OF assms, of y] by simp
qed

lemma trimFuel_spaceSeq:
  assumes "prefixFree encs" and "spaceSeq encs a"
  shows "trimFuel encs (length (a @ y)) (a @ y) = trimFuel encs (length y) y"
proof -
  from assms(2) obtain es where es: "set es \<subseteq> set encs" "a = concat es"
    unfolding spaceSeq_def by blast
  from es(1) have "trimFuel encs (length (concat es @ y)) (concat es @ y) = trimFuel encs (length y) y"
  proof (induction es)
    case Nil
    then show ?case by simp
  next
    case (Cons e es)
    then have "e \<in> set encs" by simp
    from trimFuel_enc [OF assms(1) this, of "concat es @ y"] Cons show ?case by simp
  qed
  with es(2) show ?thesis by simp
qed

lemma trimFuel_decompose:
  "\<exists>a. spaceSeq encs a \<and> s = a @ trimFuel encs (length s) s
       \<and> leadingSpace encs (trimFuel encs (length s) s) = 0"
proof (induction s rule: length_induct)
  case (1 s)
  show ?case
  proof (cases "leadingSpace encs s = 0")
    case True
    then have "trimFuel encs (length s) s = s"
      using trimFuel_unfold [of encs s] by simp
    with True spaceSeq_Nil [of encs] show ?thesis
      by (intro exI [of _ "[]"]) simp
  next
    case False
    from leadingSpace_pos [OF this] obtain e where e: "e \<in> set encs" "e \<noteq> []"
        "take (length e) s = e" "leadingSpace encs s = length e"
      by blast
    let ?r = "drop (length e) s"
    have s: "s = e @ ?r"
      using e(3) by (metis append_take_drop_id)
    have "length e \<noteq> 0" "length e \<le> length s"
      using e(2,4) leadingSpace_le [of encs s] by simp_all
    then have "length s - length e < length s"
      by arith
    then have "length ?r < length s"
      by simp
    with 1 obtain a where a: "spaceSeq encs a" "?r = a @ trimFuel encs (length ?r) ?r"
        "leadingSpace encs (trimFuel encs (length ?r) ?r) = 0"
      by blast
    have t: "trimFuel encs (length s) s = trimFuel encs (length ?r) ?r"
      using trimFuel_unfold [of encs s] False e(4) by simp
    have "spaceSeq encs (e @ a)"
      using e(1) a(1) by (rule spaceSeq_Cons)
    moreover have "s = (e @ a) @ trimFuel encs (length s) s"
      using s a(2) t by (metis append_assoc)
    ultimately show ?thesis using a(3) t by metis
  qed
qed

lemma leadingSpace_boundary:
  assumes "prefixFree encs" and "noInnerHead encs" and "spaceSeq encs b"
    and "q \<noteq> []" and "leadingSpace encs q = 0"
  shows "leadingSpace encs (q @ b) = 0"
proof (rule ccontr)
  assume "leadingSpace encs (q @ b) \<noteq> 0"
  from leadingSpace_pos [OF this] obtain e where e: "e \<in> set encs" "e \<noteq> []"
      "take (length e) (q @ b) = e"
    by blast
  show False
  proof (cases "length e \<le> length q")
    case True
    with e(3) have "take (length e) q = e" by simp
    with leadingSpace_zero [OF assms(1,5) e(1)] show False by simp
  next
    case False
    then have lt: "length q < length e" by simp
    from e(3) lt have "q @ take (length e - length q) b = e" by simp
    then have eq: "e = q @ take (length e - length q) b" by simp
    from lt eq have bne: "b \<noteq> []" by auto
    from assms(3) obtain es where es: "set es \<subseteq> set encs" "b = concat es"
      unfolding spaceSeq_def by blast
    from assms(1) es(1) have "\<forall>x \<in> set es. x \<noteq> []"
      by (auto simp: prefixFree_def list_all_iff)
    with bne es(2) obtain e' es' where es': "es = e' # es'" "e' \<noteq> []"
      by (cases es) auto
    with es have e'in: "e' \<in> set encs" and hb: "hd b = hd e'" by auto
    have "hd b \<in> set (tl e)"
    proof -
      from assms(4) obtain x q' where q: "q = x # q'" by (cases q) auto
      from bne have "hd b \<in> set (take (length e - length q) b)"
        using lt by (cases b) (auto simp: take_Cons')
      with eq q show ?thesis
        by (metis UnCI list.sel(3) append_Cons set_append)
    qed
    with hb have "hd e' \<in> set (tl e)" by simp
    with assms(2) e(1) e'in show False
      by (auto simp: noInnerHead_def list_all_iff)
  qed
qed

lemma spaceEncodings_prefixFree: "prefixFree spaceEncodings"
  by code_simp

lemma spaceEncodings_rev_prefixFree: "prefixFree (map rev spaceEncodings)"
  by code_simp

lemma spaceEncodings_noInnerHead: "noInnerHead spaceEncodings"
  by code_simp

lemma spaceEncodings_no_comma: "list_all (\<lambda>e. CHR '','' \<notin> set e) spaceEncodings"
  by code_simp

lemma spaceSeq_no_comma:
  assumes "spaceSeq spaceEncodings a"
  shows "CHR '','' \<notin> set a"
proof -
  from assms obtain es where "set es \<subseteq> set spaceEncodings" "a = concat es"
    unfolding spaceSeq_def by blast
  with spaceEncodings_no_comma show ?thesis
    by (auto simp: list_all_iff)
qed

lemma spaceSeq_rev:
  assumes "spaceSeq encs b"
  shows "spaceSeq (map rev encs) (rev b)"
proof -
  from assms obtain es where es: "set es \<subseteq> set encs" "b = concat es"
    unfolding spaceSeq_def by blast
  then have "set (map rev (rev es)) \<subseteq> set (map rev encs) \<and> rev b = concat (map rev (rev es))"
    by (auto simp: rev_concat)
  then show ?thesis unfolding spaceSeq_def by blast
qed

lemma spaceSeq_unrev:
  assumes "spaceSeq (map rev encs) b"
  shows "spaceSeq encs (rev b)"
proof -
  have "map rev (map rev encs) = encs"
    by (simp add: map_idI)
  with spaceSeq_rev [OF assms] show ?thesis by simp
qed

lemma TrimLeft_spaces:
  "spaceSeq spaceEncodings a \<Longrightarrow> TrimLeft (a @ y) = TrimLeft y"
  unfolding TrimLeft_def by (rule trimFuel_spaceSeq [OF spaceEncodings_prefixFree])

lemma TrimRight_spaces:
  assumes "spaceSeq spaceEncodings b"
  shows "TrimRight (x @ b) = TrimRight x"
proof -
  from trimFuel_spaceSeq [OF spaceEncodings_rev_prefixFree spaceSeq_rev [OF assms], of "rev x"]
  show ?thesis by (simp add: TrimRight_def add.commute)
qed

lemma TrimLeft_decompose:
  "\<exists>a. spaceSeq spaceEncodings a \<and> s = a @ TrimLeft s \<and> leadingSpace spaceEncodings (TrimLeft s) = 0"
  unfolding TrimLeft_def by (rule trimFuel_decompose)

lemma TrimRight_decompose:
  "\<exists>b. spaceSeq spaceEncodings b \<and> s = TrimRight s @ b"
proof -
  from trimFuel_decompose [of "map rev spaceEncodings" "rev s"]
  obtain a where a: "spaceSeq (map rev spaceEncodings) a"
      "rev s = a @ trimFuel (map rev spaceEncodings) (length (rev s)) (rev s)"
    by blast
  from a(2) have "rev (rev s) = rev (a @ trimFuel (map rev spaceEncodings) (length (rev s)) (rev s))"
    by simp
  then have "s = TrimRight s @ rev a"
    by (simp add: TrimRight_def)
  with spaceSeq_unrev [OF a(1)] show ?thesis by blast
qed

lemma TrimLeft_Nil: "TrimLeft [] = []"
  by (simp add: TrimLeft_def)

lemma TrimRight_Nil: "TrimRight [] = []"
  by (simp add: TrimRight_def)

lemma TrimSpace_decompose:
  "\<exists>a b. spaceSeq spaceEncodings a \<and> spaceSeq spaceEncodings b \<and> s = a @ TrimSpace s @ b"
proof -
  from TrimLeft_decompose [of s] obtain a where a: "spaceSeq spaceEncodings a" "s = a @ TrimLeft s"
    by blast
  from TrimRight_decompose [of "TrimLeft s"] obtain b where b: "spaceSeq spaceEncodings b"
      "TrimLeft s = TrimRight (TrimLeft s) @ b"
    by blast
  from a(2) b(2) have "s = a @ TrimSpace s @ b"
    by (simp add: TrimSpace_def)
  with a(1) b(1) show ?thesis by blast
qed

lemma TrimSpace_prefix:
  "spaceSeq spaceEncodings a \<Longrightarrow> TrimSpace (a @ x) = TrimSpace x"
  by (simp add: TrimSpace_def TrimLeft_spaces)

lemma TrimSpace_suffix:
  assumes "spaceSeq spaceEncodings b"
  shows "TrimSpace (x @ b) = TrimSpace x"
proof -
  from TrimLeft_decompose [of x] obtain a where a: "spaceSeq spaceEncodings a" "x = a @ TrimLeft x"
      "leadingSpace spaceEncodings (TrimLeft x) = 0"
    by blast
  have "TrimLeft (x @ b) = TrimLeft ((a @ TrimLeft x) @ b)"
    using a(2) by simp
  then have l: "TrimLeft (x @ b) = TrimLeft (TrimLeft x @ b)"
    using TrimLeft_spaces [OF a(1), of "TrimLeft x @ b"] by simp
  show ?thesis
  proof (cases "TrimLeft x = []")
    case True
    with l have "TrimLeft (x @ b) = TrimLeft (b @ [])" by simp
    also have "\<dots> = []"
      using TrimLeft_spaces [OF assms, of "[]"] by (simp add: TrimLeft_Nil)
    finally show ?thesis using True by (simp add: TrimSpace_def)
  next
    case False
    from leadingSpace_boundary [OF spaceEncodings_prefixFree spaceEncodings_noInnerHead assms False a(3)]
    have "trimFuel spaceEncodings (length (TrimLeft x @ b)) (TrimLeft x @ b) = TrimLeft x @ b"
      using trimFuel_unfold [of spaceEncodings "TrimLeft x @ b"] by simp
    then have "TrimLeft (TrimLeft x @ b) = TrimLeft x @ b"
      by (simp add: TrimLeft_def)
    with l show ?thesis
      by (simp add: TrimSpace_def TrimRight_spaces [OF assms])
  qed
qed

text \<open>Splitting a string with white space free of the separator around it.\<close>

lemma Split_not_Nil: "Split s c \<noteq> []"
  by (induction s) (auto split: list.splits)

lemma Split_no_sep: "c \<notin> set s \<Longrightarrow> Split s c = [s]"
  by (induction s) auto

lemma Split_prefix:
  "c \<notin> set a \<Longrightarrow> Split (a @ s) c = (a @ hd (Split s c)) # tl (Split s c)"
proof (induction a)
  case Nil
  then show ?case using Split_not_Nil [of s c] by simp
next
  case (Cons x a)
  then show ?case by auto
qed

lemma Split_suffix:
  "c \<notin> set b \<Longrightarrow> Split (s @ b) c = butlast (Split s c) @ [last (Split s c) @ b]"
proof (induction s)
  case Nil
  then show ?case by (simp add: Split_no_sep)
next
  case (Cons x s)
  show ?case
  proof (cases "x = c")
    case True
    with Cons show ?thesis using Split_not_Nil [of s c] by simp
  next
    case False
    obtain y ys where y: "Split s c = y # ys"
      using Split_not_Nil [of s c] by (cases "Split s c") auto
    with Cons False show ?thesis
      by (cases ys) (auto split: list.splits)
  qed
qed

lemma map_TrimSpace_Split_prefix:
  assumes "spaceSeq spaceEncodings a"
  shows "map TrimSpace (Split (a @ s) CHR '','') = map TrimSpace (Split s CHR '','')"
proof -
  obtain y ys where y: "Split s CHR '','' = y # ys"
    using Split_not_Nil [of s "CHR '',''"] by (cases "Split s CHR '',''") auto
  with Split_prefix [OF spaceSeq_no_comma [OF assms], of s] TrimSpace_prefix [OF assms, of y]
  show ?thesis by simp
qed

lemma map_TrimSpace_Split_suffix:
  assumes "spaceSeq spaceEncodings b"
  shows "map TrimSpace (Split (s @ b) CHR '','') = map TrimSpace (Split s CHR '','')"
proof -
  have "map TrimSpace (Split (s @ b) CHR '','')
      = map TrimSpace (butlast (Split s CHR '','')) @ [TrimSpace (last (Split s CHR '',''))]"
    using Split_suffix [OF spaceSeq_no_comma [OF assms], of s]
      TrimSpace_suffix [OF assms, of "last (Split s CHR '','')"]
    by simp
  also have "\<dots> = map TrimSpace (butlast (Split s CHR '','') @ [last (Split s CHR '','')])"
    by simp
  also have "\<dots> = map TrimSpace (Split s CHR '','')"
    using Split_not_Nil [of s "CHR '',''"] by simp
  finally show ?thesis .
qed

subsection \<open>The repository-ID file\<close>

text \<open>
  The items of a line are its comma-separated pieces, trimmed, without the empty
  ones, whether or not the line has a comma; so the items of a file are the pieces
  between newlines and commas alike.
\<close>

lemma lineItems_tokens:
  "lineItems l = filter (\<lambda>item. item \<noteq> []) (map TrimSpace (Split l CHR '',''))"
proof -
  from TrimSpace_decompose [of l] obtain a b where ab: "spaceSeq spaceEncodings a"
      "spaceSeq spaceEncodings b" "l = a @ TrimSpace l @ b"
    by blast
  have "map TrimSpace (Split (a @ (TrimSpace l @ b)) CHR '','') = map TrimSpace (Split (TrimSpace l) CHR '','')"
    using map_TrimSpace_Split_prefix [OF ab(1), of "TrimSpace l @ b"]
      map_TrimSpace_Split_suffix [OF ab(2), of "TrimSpace l"]
    by simp
  with ab(3) have m: "map TrimSpace (Split l CHR '','') = map TrimSpace (Split (TrimSpace l) CHR '','')"
    by simp
  have c: "CHR '','' \<in> set l \<longleftrightarrow> CHR '','' \<in> set (TrimSpace l)"
  proof -
    have "set l = set a \<union> set (TrimSpace l) \<union> set b"
      using ab(3) by (metis set_append Un_assoc)
    with spaceSeq_no_comma [OF ab(1)] spaceSeq_no_comma [OF ab(2)] show ?thesis by auto
  qed
  show ?thesis
  proof (cases "CHR '','' \<in> set (TrimSpace l)")
    case True
    then have "TrimSpace l \<noteq> []" by auto
    with True m show ?thesis
      by (simp add: lineItems_def Contains_def)
  next
    case False
    with c have "Split l CHR '','' = [l]"
      by (simp add: Split_no_sep)
    with False show ?thesis
      by (simp add: lineItems_def Contains_def)
  qed
qed

lemma Split_lines_commas:
  "concat (map (\<lambda>l. Split l CHR '','') (Split content (CHR 0x0A)))
     = Split (unifyDelimiters content) CHR '',''"
proof (induction content)
  case Nil
  then show ?case by (simp add: unifyDelimiters_def)
next
  case (Cons x xs)
  obtain y ys where y: "Split xs (CHR 0x0A) = y # ys"
    using Split_not_Nil [of xs "CHR 0x0A"] by (cases "Split xs (CHR 0x0A)") auto
  obtain z zs where z: "Split y CHR '','' = z # zs"
    using Split_not_Nil [of y "CHR '',''"] by (cases "Split y CHR '',''") auto
  from Cons y z
  have "Split (unifyDelimiters xs) CHR '','' = z # zs @ concat (map (\<lambda>l. Split l CHR '','') ys)"
    by simp
  with y z show ?case
    by (auto simp: unifyDelimiters_def)
qed

lemma fileItems_tokens:
  "fileItems content =
     filter (\<lambda>item. item \<noteq> []) (map TrimSpace (Split (unifyDelimiters content) CHR '',''))"
proof -
  have "lineItems = (\<lambda>l. filter (\<lambda>item. item \<noteq> []) (map TrimSpace (Split l CHR '','')))"
    by (rule ext) (rule lineItems_tokens)
  then have "fileItems content
      = concat (map (\<lambda>l. filter (\<lambda>item. item \<noteq> []) (map TrimSpace (Split l CHR '','')))
          (Split content (CHR 0x0A)))"
    by (simp add: fileItems_def)
  also have "\<dots> = filter (\<lambda>item. item \<noteq> [])
      (map TrimSpace (concat (map (\<lambda>l. Split l CHR '','') (Split content (CHR 0x0A)))))"
    by (simp add: filter_concat map_concat comp_def)
  finally show ?thesis by (simp add: Split_lines_commas)
qed

lemma fileItems_delimiters:
  "unifyDelimiters c1 = unifyDelimiters c2 \<Longrightarrow> fileItems c1 = fileItems c2"
  by (simp add: fileItems_tokens)

text \<open>
  C8. Parsing the repository-ID file is invariant under reformatting between newline
  and comma delimiters: two files that differ only in which of the two delimiters
  stands at each place give the same result, reading included. The contents
  \<open>1001\<close>, newline, \<open>1002,1003\<close> and the contents \<open>1001,1002,1003\<close> both parse
  to the sequence of IDs 1001, 1002, 1003.
\<close>

theorem parseRepositoryData_file_delimiters:
  assumes "RepoIDs args = []" and "RepoNames args = []" and "RepoIDsFile args \<noteq> []"
    and "readFile w1 (RepoIDsFile args) = (c1, None)"
    and "readFile w2 (RepoIDsFile args) = (c2, None)"
    and "unifyDelimiters c1 = unifyDelimiters c2"
  shows "parseRepositoryData w1 args = parseRepositoryData w2 args
     \<and> (c1 = ''1001'' @ [CHR 0x0A] @ ''1002,1003'' \<and> c2 = ''1001,1002,1003''
          \<longrightarrow> parseRepositoryData w2 args =
                (Inr (Some [(''repository_ids'', IntSlice [1001, 1002, 1003])]),
                 [ReadFile (RepoIDsFile args)]))"
proof -
  have p1: "parseRepositoryData w1 args = (convertItems (fileItems c1) False, [ReadFile (RepoIDsFile args)])"
    using assms(1-4) by (simp add: parseRepositoryData_def)
  have p2: "parseRepositoryData w2 args = (convertItems (fileItems c2) False, [ReadFile (RepoIDsFile args)])"
    using assms(1-3,5) by (simp add: parseRepositoryData_def)
  have "fileItems c1 = fileItems c2"
    using assms(6) by (rule fileItems_delimiters)
  with p1 p2 have same: "parseRepositoryData w1 args = parseRepositoryData w2 args"
    by simp
  have "convertItems (fileItems ''1001,1002,1003'') False
          = Inr (Some [(''repository_ids'', IntSlice [1001, 1002, 1003])])"
    by code_simp
  with p2 same show ?thesis by simp
qed

text \<open>Both files of C8 in concrete worlds.\<close>

theorem parseRepositoryData_file_delimiters_witness:
  "parseRepositoryData (okWorld\<lparr>readFile := (\<lambda>path. (''1001'' @ [CHR 0x0A] @ ''1002,1003'', None))\<rparr>)
       (noArgs\<lparr>RepoIDsFile := ''ids.txt''\<rparr>)
     = (Inr (Some [(''repository_ids'', IntSlice [1001, 1002, 1003])]), [ReadFile ''ids.txt''])
   \<and> parseRepositoryData (okWorld\<lparr>readFile := (\<lambda>path. (''1001,1002,1003'', None))\<rparr>)
       (noArgs\<lparr>RepoIDsFile := ''ids.txt''\<rparr>)
     = (Inr (Some [(''repository_ids'', IntSlice [1001, 1002, 1003])]), [ReadFile ''ids.txt''])"
proof -
  let ?args = "noArgs\<lparr>RepoIDsFile := ''ids.txt''\<rparr>"
  let ?c1 = "''1001'' @ [CHR 0x0A] @ ''1002,1003''"
  let ?c2 = "''1001,1002,1003''"
  let ?w1 = "okWorld\<lparr>readFile := (\<lambda>path. (?c1, None))\<rparr>"
  let ?w2 = "okWorld\<lparr>readFile := (\<lambda>path. (?c2, None))\<rparr>"
  have a: "RepoIDs ?args = []" "RepoNames ?args = []" "RepoIDsFile ?args \<noteq> []"
    by (simp_all add: noArgs_def)
  have r: "readFile ?w1 (RepoIDsFile ?args) = (?c1, None)"
      "readFile ?w2 (RepoIDsFile ?args) = (?c2, None)"
    by simp_all
  have u: "unifyDelimiters ?c1 = unifyDelimiters ?c2"
    by (simp add: unifyDelimiters_def)
  from parseRepositoryData_file_delimiters [OF a r u] show ?thesis
    by simp
qed

subsection \<open>The token-exchange request\<close>

lemma update_not_Nil: "AList.update k v m \<noteq> []"
  by (cases m) auto

lemma fold_update_Nil:
  "fold (\<lambda>kv m. AList.update (fst kv) (snd kv) m) rd m0 = [] \<longleftrightarrow> rd = [] \<and> m0 = []"
  by (induction rd arbitrary: m0) (auto simp: update_not_Nil)

lemma buildReqData_Nil:
  "buildReqData repoData permissions = []
     \<longleftrightarrow> (repoData = None \<or> repoData = Some []) \<and> (permissions = None \<or> permissions = Some [])"
  by (auto simp: buildReqData_def fold_update_Nil update_not_Nil split: option.splits)

lemma buildReqData_permissions:
  "permissions = Some ps \<Longrightarrow> ps \<noteq> []
   \<Longrightarrow> map_of (buildReqData repoData permissions) ''permissions'' = Some (StringMap ps)"
  by (simp add: buildReqData_def update_conv' split: option.splits)

lemma installationToken_events:
  "snd (installationToken w jwt installation repoData permissions) =
     (case newRequest w ''POST''
             (''https://api.github.com/app/installations/'' @ installation @ ''/access_tokens'') of
        Some e \<Rightarrow> []
      | None \<Rightarrow> [HttpDo (tokenRequest jwt installation (buildReqData repoData permissions))])"
  by (simp add: installationToken_def tokenRequest_def Let_def split: option.splits)

text \<open>
  C9. A call of \<open>installationToken\<close> with an installation ID sends one POST request
  (none when \<open>http.NewRequest\<close> rejects the URL). Without a repository selector and
  without permissions its body is empty and it has no \<open>Content-Type\<close> header;
  otherwise its body is the JSON of the request data and the header
  \<open>Content-Type: application/json\<close> is set.
\<close>

theorem installationToken_body_and_header:
  assumes "installation \<noteq> []"
    and "newRequest w ''POST''
           (''https://api.github.com/app/installations/'' @ installation @ ''/access_tokens'') = None"
  shows "\<exists>req. snd (installationToken w jwt installation repoData permissions) = [HttpDo req]
     \<and> Method req = ''POST''
     \<and> (if (repoData = None \<or> repoData = Some []) \<and> (permissions = None \<or> permissions = Some [])
        then Body req = EmptyBody \<and> ''Content-Type'' \<notin> fst ` set (Header req)
        else Body req = JsonBody (buildReqData repoData permissions)
             \<and> buildReqData repoData permissions \<noteq> []
             \<and> (''Content-Type'', ''application/json'') \<in> set (Header req))"
proof -
  let ?req = "tokenRequest jwt installation (buildReqData repoData permissions)"
  have "snd (installationToken w jwt installation repoData permissions) = [HttpDo ?req]"
    using assms(2) by (simp add: installationToken_events)
  moreover have "Method ?req = ''POST''"
    by (simp add: tokenRequest_def)
  moreover have "buildReqData repoData permissions = [] \<Longrightarrow>
      Body ?req = EmptyBody \<and> ''Content-Type'' \<notin> fst ` set (Header ?req)"
    by (simp add: tokenRequest_def)
  moreover have "buildReqData repoData permissions \<noteq> [] \<Longrightarrow>
      Body ?req = JsonBody (buildReqData repoData permissions)
      \<and> (''Content-Type'', ''application/json'') \<in> set (Header ?req)"
    by (simp add: tokenRequest_def)
  ultimately show ?thesis
    using buildReqData_Nil [of repoData permissions] by (intro exI [of _ ?req]) auto
qed

text \<open>A request of C9 without options and one with a selector and permissions.\<close>

theorem installationToken_body_and_header_witness:
  "snd (installationToken okWorld ''signed'' ''12345'' None None)
     = [HttpDo \<lparr>Method = ''POST'',
                URL = ''https://api.github.com/app/installations/12345/access_tokens'',
                Header = [(''Accept'', ''application/vnd.github+json''),
                          (''Authorization'', ''Bearer signed'')],
                Body = EmptyBody\<rparr>]
   \<and> snd (installationToken okWorld ''signed'' ''12345''
            (Some [(''repository_ids'', IntSlice [10, 20])]) (Some [(''contents'', ''read'')]))
     = [HttpDo \<lparr>Method = ''POST'',
                URL = ''https://api.github.com/app/installations/12345/access_tokens'',
                Header = [(''Accept'', ''application/vnd.github+json''),
                          (''Authorization'', ''Bearer signed''),
                          (''Content-Type'', ''application/json'')],
                Body = JsonBody [(''repository_ids'', IntSlice [10, 20]),
                                 (''permissions'', StringMap [(''contents'', ''read'')])]\<rparr>]"
proof -
  have n: "(''12345'' :: string) \<noteq> []" by simp
  have u: "newRequest okWorld ''POST''
             (''https://api.github.com/app/installations/'' @ ''12345'' @ ''/access_tokens'') = None"
    by (simp add: okWorld_def)
  from installationToken_body_and_header [OF n u, of "''signed''" None None]
  obtain r1 where r1: "snd (installationToken okWorld ''signed'' ''12345'' None None) = [HttpDo r1]"
    by blast
  from installationToken_body_and_header [OF n u, of "''signed''"
      "Some [(''repository_ids'', IntSlice [10, 20])]" "Some [(''contents'', ''read'')]"]
  obtain r2 where r2: "snd (installationToken okWorld ''signed'' ''12345''
            (Some [(''repository_ids'', IntSlice [10, 20])]) (Some [(''contents'', ''read'')])) = [HttpDo r2]"
    by blast
  have "r1 = tokenRequest ''signed'' ''12345'' (buildReqData None None)"
    using r1 u by (simp add: installationToken_events)
  moreover have "r2 = tokenRequest ''signed'' ''12345''
      (buildReqData (Some [(''repository_ids'', IntSlice [10, 20])]) (Some [(''contents'', ''read'')]))"
    using r2 u by (simp add: installationToken_events)
  ultimately show ?thesis using r1 r2
    by (simp add: tokenRequest_def buildReqData_def)
qed

end
